theory Spec2Isabelle
  imports Main
begin

section \<open>JavaScript values\<close>

text \<open>
  The values that flow through the client: \<open>JUndefined\<close> is JavaScript's \<open>undefined\<close>,
  \<open>JObj\<close> is a plain object as its list of own properties and \<open>JFun\<close> stands for a
  function object (a proxy is one), named by its source text. A number is kept as the text
  JavaScript writes for it, which is the engine's business and all that the client code
  looks at besides its truthiness: \<open>JNum ''123''\<close>, \<open>JNum ''1.5''\<close>, \<open>JNum ''1e+21''\<close>,
  \<open>JNum ''NaN''\<close>.
\<close>

datatype jsval =
    JUndefined
  | JNull
  | JBool bool
  | JNum string
  | JStr string
  | JArr "jsval list"
  | JObj "(string \<times> jsval) list"
  | JFun string

text \<open>Whatever a \<open>throw\<close> or a rejected promise carries.\<close>

datatype error =
    Error string
  | TypeError string
  | InvalidTokenError string
  | Rejected jsval

text \<open>\<open>typeof v === 'object'\<close>: objects, arrays and \<open>null\<close>.\<close>

fun typeof_object :: "jsval \<Rightarrow> bool" where
  "typeof_object JNull = True"
| "typeof_object (JArr _) = True"
| "typeof_object (JObj _) = True"
| "typeof_object _ = False"

text \<open>
  ToBoolean, as \<open>||\<close>, \<open>!\<close> and \<open>if\<close> apply it. The falsy numbers are zero, written
  \<open>0\<close> with either sign, and \<open>NaN\<close>.
\<close>

fun truthy :: "jsval \<Rightarrow> bool" where
  "truthy JUndefined = False"
| "truthy JNull = False"
| "truthy (JBool b) = b"
| "truthy (JNum t) = (t \<noteq> ''0'' \<and> t \<noteq> ''NaN'')"
| "truthy (JStr s) = (s \<noteq> [])"
| "truthy _ = True"

text \<open>A default parameter value (\<open>{ body = {} }\<close>) replaces \<open>undefined\<close> only.\<close>

definition dflt :: "jsval \<Rightarrow> jsval \<Rightarrow> jsval" where
  "dflt d v = (if v = JUndefined then d else v)"

text \<open>\<open>Array.prototype.join\<close> on strings.\<close>

fun join :: "string \<Rightarrow> string list \<Rightarrow> string" where
  "join sep [] = []"
| "join sep [x] = x"
| "join sep (x # y # ys) = x @ sep @ join sep (y # ys)"

text \<open>
  ToString of a value; \<open>join\<close> turns an \<open>undefined\<close> or \<open>null\<close> element into the empty
  string and every other element into its ToString.
\<close>

fun js_toString :: "jsval \<Rightarrow> string" where
  "js_toString JUndefined = ''undefined''"
| "js_toString JNull = ''null''"
| "js_toString (JBool b) = (if b then ''true'' else ''false'')"
| "js_toString (JNum t) = t"
| "js_toString (JStr s) = s"
| "js_toString (JArr xs) =
     join '','' (map (\<lambda>x. if x = JUndefined \<or> x = JNull then [] else js_toString x) xs)"
| "js_toString (JObj _) = ''[object Object]''"
| "js_toString (JFun src) = src"

definition array_join :: "string \<Rightarrow> jsval list \<Rightarrow> string" where
  "array_join sep xs =
     join sep (map (\<lambda>x. if x = JUndefined \<or> x = JNull then [] else js_toString x) xs)"

section \<open>Path compiler (api-proxy.js)\<close>

text \<open>
  An entry of \<open>paths\<close> is a property name pushed by the \<open>get\<close> trap (or pushed back by
  the \<open>apply\<close> trap), or the object \<open>{ value: query }\<close> pushed by \<open>crudProxy\<close>.
\<close>

datatype segment = Ident string | Literal jsval

text \<open>
  \<open>pathsToUrl\<close>. lodash's \<open>kebabCase\<close> is a dependency, not code of this package: it is the
  parameter \<open>kebabCase\<close>.
\<close>

definition pathsToUrl :: "(string \<Rightarrow> string) \<Rightarrow> segment list \<Rightarrow> string" where
  "pathsToUrl kebabCase paths =
     ''/'' @ array_join ''/''
       (map (\<lambda>path. case path of Literal v \<Rightarrow> v | Ident p \<Rightarrow> JStr (kebabCase p)) paths)"

record descriptor =
  url :: string
  http_method :: jsval
  get :: jsval
  body :: jsval

text \<open>
  \<open>deliverState\<close>: compiles the path and empties the array (\<open>state.paths.length = 0\<close>);
  the second component is the array afterwards.
\<close>

definition deliverState ::
  "(string \<Rightarrow> string) \<Rightarrow> segment list \<Rightarrow> jsval \<Rightarrow> jsval \<Rightarrow> jsval \<Rightarrow> descriptor \<times> segment list" where
  "deliverState kebabCase paths body' query method' =
     (\<lparr>url = pathsToUrl kebabCase paths,
       http_method = dflt (JStr ''get'') method',
       get = dflt (JObj []) query,
       body = dflt (JObj []) body'\<rparr>, [])"

section \<open>Call-path proxy (api-proxy.js)\<close>

text \<open>
  All proxies made from one root share the root's \<open>paths\<close> array, so the array is threaded
  through every operation as the one piece of shared state. A \<open>crudProxy\<close> object itself
  only differs in its own property \<open>get\<close>: the root has none (\<open>None\<close>), every other one
  is created with \<open>get: query\<close>. Callbacks act on a world \<open>'w\<close> of their own.
\<close>

record crudProxy =
  own_get :: "jsval option"

datatype outcome =
    Returned jsval
  | Threw error
  | Chain crudProxy
  | Own string

type_synonym 'w methodCallback = "segment \<Rightarrow> jsval list \<Rightarrow> 'w \<Rightarrow> (error + jsval) \<times> 'w"

text \<open>The default \<open>methodCallback = r => r\<close> hands \<open>{ method, args }\<close> back.\<close>

definition default_methodCallback :: "'w methodCallback" where
  "default_methodCallback m args w =
     (Inr (JObj [(''method'', case m of Ident p \<Rightarrow> JStr p | Literal v \<Rightarrow> JObj [(''value'', v)]),
                 (''args'', JArr args)]), w)"

text \<open>The default \<open>next = r => r\<close>.\<close>

definition default_next :: "descriptor \<Rightarrow> 'w \<Rightarrow> descriptor \<times> 'w" where
  "default_next r w = (r, w)"

text \<open>
  The function \<open>crudProxy\<close> of \<open>getCrudProxy\<close>, called with \<open>this = thisArg\<close>. The module
  is strict code: a call without a receiver has \<open>this\<close> undefined (\<open>thisArg = False\<close>) and
  reading \<open>this.paths\<close> throws; with a receiver, \<open>this\<close> is a proxy of the same root.
\<close>

definition crudProxy_call ::
  "bool \<Rightarrow> jsval list \<Rightarrow> segment list \<Rightarrow> (error + crudProxy) \<times> segment list" where
  "crudProxy_call thisArg args paths =
     (let query = dflt (JObj []) (case args of [] \<Rightarrow> JUndefined | q # _ \<Rightarrow> q) in
      if \<not> thisArg then (Inl (TypeError ''Cannot read property paths of undefined''), paths)
      else if \<not> typeof_object query
        then (Inr \<lparr>own_get = Some (JObj [])\<rparr>, paths @ [Literal query])
        else (Inr \<lparr>own_get = Some query\<rparr>, paths))"

text \<open>
  The own properties of a \<open>crudProxy\<close> function object, which the \<open>get\<close> trap returns
  instead of extending the path.
\<close>

definition hasOwnProperty :: "crudProxy \<Rightarrow> string \<Rightarrow> bool" where
  "hasOwnProperty obj prop =
     (prop \<in> set [''length'', ''name'', ''prototype'', ''methodCallback'', ''valueOf'',
                   ''toString'', ''then'', ''create'', ''update'', ''delete'', ''paths'']
      \<or> (prop = ''get'' \<and> own_get obj \<noteq> None))"

text \<open>\<open>handler.get\<close>: result and the shared array afterwards.\<close>

definition handler_get :: "crudProxy \<Rightarrow> string \<Rightarrow> segment list \<Rightarrow> outcome \<times> segment list" where
  "handler_get obj prop paths =
     (if hasOwnProperty obj prop then (Own prop, paths)
      else (case crudProxy_call True [] (paths @ [Ident prop]) of
              (Inl e, paths') \<Rightarrow> (Threw e, paths')
            | (Inr p, paths') \<Rightarrow> (Chain p, paths')))"

text \<open>
  \<open>handler.apply\<close>: result, the target afterwards (\<open>target.get = args\<close>), the shared array
  and the callbacks' world.
\<close>

definition handler_apply ::
  "'w methodCallback \<Rightarrow> crudProxy \<Rightarrow> bool \<Rightarrow> jsval list \<Rightarrow> segment list \<Rightarrow> 'w
     \<Rightarrow> outcome \<times> crudProxy \<times> segment list \<times> 'w" where
  "handler_apply methodCallback target thisArg args paths w =
     (let proceed = (\<lambda>paths' w'.
            case crudProxy_call thisArg args paths' of
              (Inl e, paths'') \<Rightarrow> (Threw e, target\<lparr>own_get := Some (JArr args)\<rparr>, paths'', w')
            | (Inr p, paths'') \<Rightarrow> (Chain p, target\<lparr>own_get := Some (JArr args)\<rparr>, paths'', w'))
      in case paths of
           [method'] \<Rightarrow>
             (case methodCallback method' args w of
                (Inl e, w') \<Rightarrow> (Threw e, target, [], w')
              | (Inr res, w') \<Rightarrow>
                  if res \<noteq> JUndefined then (Returned res, target, [], w')
                  else proceed ([] @ [method']) w')
         | _ \<Rightarrow> proceed paths w)"

text \<open>
  \<open>this.get\<close> read through a proxy: the own property if there is one, otherwise the
  \<open>get\<close> trap pushes the segment \<open>get\<close> and yields a new proxy.
\<close>

definition this_get :: "crudProxy \<Rightarrow> segment list \<Rightarrow> jsval \<times> segment list" where
  "this_get obj paths =
     (case own_get obj of
        Some q \<Rightarrow> (q, paths)
      | None \<Rightarrow> (JFun ''crudProxy'', paths @ [Ident ''get'']))"

definition crud_valueOf ::
  "(string \<Rightarrow> string) \<Rightarrow> crudProxy \<Rightarrow> segment list \<Rightarrow> descriptor \<times> segment list" where
  "crud_valueOf kebabCase obj paths =
     (let (q, paths') = this_get obj paths
      in deliverState kebabCase paths' JUndefined q JUndefined)"

text \<open>
  \<open>then\<close> calls \<open>crudProxy.valueOf()\<close> on the function object itself, not through the
  proxy: a missing \<open>get\<close> is \<open>undefined\<close> there.
\<close>

definition crud_then ::
  "(string \<Rightarrow> string) \<Rightarrow> (descriptor \<Rightarrow> 'w \<Rightarrow> 'r \<times> 'w) \<Rightarrow> ('r \<Rightarrow> 'a) \<Rightarrow> crudProxy
     \<Rightarrow> segment list \<Rightarrow> 'w \<Rightarrow> 'a \<times> segment list \<times> 'w" where
  "crud_then kebabCase next fn obj paths w =
     (let (d, paths') = deliverState kebabCase paths JUndefined
                          (case own_get obj of Some q \<Rightarrow> q | None \<Rightarrow> JUndefined) JUndefined;
          (r, w') = next d w
      in (fn r, paths', w'))"

definition crud_create ::
  "(string \<Rightarrow> string) \<Rightarrow> (descriptor \<Rightarrow> 'w \<Rightarrow> 'r \<times> 'w) \<Rightarrow> jsval
     \<Rightarrow> segment list \<Rightarrow> 'w \<Rightarrow> 'r \<times> segment list \<times> 'w" where
  "crud_create kebabCase next body' paths w =
     (let (d, paths') = deliverState kebabCase paths body' JUndefined (JStr ''post'');
          (r, w') = next d w
      in (r, paths', w'))"

definition crud_update ::
  "(string \<Rightarrow> string) \<Rightarrow> (descriptor \<Rightarrow> 'w \<Rightarrow> 'r \<times> 'w) \<Rightarrow> crudProxy \<Rightarrow> jsval
     \<Rightarrow> segment list \<Rightarrow> 'w \<Rightarrow> 'r \<times> segment list \<times> 'w" where
  "crud_update kebabCase next obj body' paths w =
     (let (q, paths1) = this_get obj paths;
          (d, paths') = deliverState kebabCase paths1 body' q (JStr ''patch'');
          (r, w') = next d w
      in (r, paths', w'))"

definition crud_delete ::
  "(string \<Rightarrow> string) \<Rightarrow> (descriptor \<Rightarrow> 'w \<Rightarrow> 'r \<times> 'w) \<Rightarrow> crudProxy \<Rightarrow> jsval list
     \<Rightarrow> segment list \<Rightarrow> 'w \<Rightarrow> (error + 'r) \<times> segment list \<times> 'w" where
  "crud_delete kebabCase next obj arguments paths w =
     (if length arguments > 0
        then (Inl (Error ''Method delete does not take any arguments''), paths, w)
      else
        (let (q, paths1) = this_get obj paths;
             (d, paths') = deliverState kebabCase paths1 JUndefined q (JStr ''delete'');
             (r, w') = next d w
         in (Inr r, paths', w')))"

text \<open>\<open>handler.construct\<close>: \<open>new proxy.a.b(body)\<close> is \<open>target.create(body)\<close>.\<close>

definition handler_construct ::
  "(string \<Rightarrow> string) \<Rightarrow> (descriptor \<Rightarrow> 'w \<Rightarrow> 'r \<times> 'w) \<Rightarrow> jsval list
     \<Rightarrow> segment list \<Rightarrow> 'w \<Rightarrow> 'r \<times> segment list \<times> 'w" where
  "handler_construct kebabCase next args paths w =
     crud_create kebabCase next (case args of [] \<Rightarrow> JUndefined | b # _ \<Rightarrow> b) paths w"

text \<open>\<open>ApiProxy()\<close>: a root has no \<open>get\<close> and a fresh, empty \<open>paths\<close>.\<close>

definition ApiProxy_root :: "crudProxy \<times> segment list" where
  "ApiProxy_root = (\<lparr>own_get = None\<rparr>, [])"

subsection \<open>Driving a chain\<close>

text \<open>
  A chain expression \<open>root.a.b(x).c\<close> is a list of property reads and calls, evaluated left
  to right by the traps. A call that follows a property read has that read's object as
  receiver; any other call has none. Evaluation ends early when a trap throws, when
  \<open>methodCallback\<close> answers, or when a property read yields an own property.
\<close>

datatype step = Prop string | Call "jsval list"

fun run_chain ::
  "'w methodCallback \<Rightarrow> crudProxy \<Rightarrow> bool \<Rightarrow> step list \<Rightarrow> segment list \<Rightarrow> 'w
     \<Rightarrow> outcome \<times> segment list \<times> 'w" where
  "run_chain mc obj recv [] paths w = (Chain obj, paths, w)"
| "run_chain mc obj recv (Prop p # rest) paths w =
     (case handler_get obj p paths of
        (Chain obj', paths') \<Rightarrow> run_chain mc obj' True rest paths' w
      | (other, paths') \<Rightarrow> (other, paths', w))"
| "run_chain mc obj recv (Call args # rest) paths w =
     (case handler_apply mc obj recv args paths w of
        (Chain obj', _, paths', w') \<Rightarrow> run_chain mc obj' False rest paths' w'
      | (other, _, paths', w') \<Rightarrow> (other, paths', w'))"

text \<open>The terminal actions, applied to the proxy a chain evaluated to.\<close>

datatype terminal = Create jsval | Update jsval | Delete "jsval list" | Read

definition compile ::
  "(string \<Rightarrow> string) \<Rightarrow> (descriptor \<Rightarrow> 'w \<Rightarrow> 'r \<times> 'w) \<Rightarrow> terminal \<Rightarrow> crudProxy
     \<Rightarrow> segment list \<Rightarrow> 'w \<Rightarrow> (error + 'r) \<times> segment list \<times> 'w" where
  "compile kebabCase next t obj paths w =
     (case t of
        Create b \<Rightarrow> (let (r, paths', w') = crud_create kebabCase next b paths w in (Inr r, paths', w'))
      | Update b \<Rightarrow> (let (r, paths', w') = crud_update kebabCase next obj b paths w in (Inr r, paths', w'))
      | Delete args \<Rightarrow> crud_delete kebabCase next obj args paths w
      | Read \<Rightarrow> (let (r, paths', w') = crud_then kebabCase next (\<lambda>r. r) obj paths w in (Inr r, paths', w')))"

text \<open>Evaluating a chain from the root and compiling it with a terminal action.\<close>

datatype 'r driven = Compiled 'r | Failed error | Stopped outcome

definition drive ::
  "(string \<Rightarrow> string) \<Rightarrow> 'w methodCallback \<Rightarrow> (descriptor \<Rightarrow> 'w \<Rightarrow> 'r \<times> 'w)
     \<Rightarrow> step list \<times> terminal \<Rightarrow> segment list \<Rightarrow> 'w \<Rightarrow> 'r driven \<times> segment list \<times> 'w" where
  "drive kebabCase mc next chain paths w =
     (case run_chain mc (fst ApiProxy_root) False (fst chain) paths w of
        (Chain obj, paths', w') \<Rightarrow>
          (case compile kebabCase next (snd chain) obj paths' w' of
             (Inr r, paths'', w'') \<Rightarrow> (Compiled r, paths'', w'')
           | (Inl e, paths'', w'') \<Rightarrow> (Failed e, paths'', w''))
      | (other, paths', w') \<Rightarrow> (Stopped other, paths', w'))"

section \<open>The client's method callback (api-client.js, constructor)\<close>

text \<open>
  \<open>methodCallback ({ method, args = [] }) { return $this[method](...args) || true }\<close>.
  \<open>methods\<close> is the lookup \<open>$this[method]\<close> among the client's methods, each acting on the
  world; calling a member that is not a function throws a TypeError, and so does the
  lookup of a segment that is not a name.
\<close>

definition client_methodCallback ::
  "(string \<Rightarrow> (jsval list \<Rightarrow> 'w \<Rightarrow> (error + jsval) \<times> 'w) option) \<Rightarrow> 'w methodCallback" where
  "client_methodCallback methods m args w =
     (case m of
        Literal v \<Rightarrow> (Inl (TypeError ''$this[method] is not a function''), w)
      | Ident name \<Rightarrow>
          (case methods name of
             None \<Rightarrow> (Inl (TypeError ''$this[method] is not a function''), w)
           | Some f \<Rightarrow>
               (case f args w of
                  (Inl e, w') \<Rightarrow> (Inl e, w')
                | (Inr v, w') \<Rightarrow> (Inr (if truthy v then v else JBool True), w'))))"

section \<open>The path compiler as the specification words it\<close>

text \<open>
  A segment the proxy can have put on the path: a property name, or the wrapper of a call
  argument, which \<open>crudProxy\<close> wraps only when \<open>typeof query !== 'object'\<close> and which is
  never \<open>undefined\<close>, the parameter's default standing in for it.
\<close>

definition accumulated :: "segment \<Rightarrow> bool" where
  "accumulated seg =
     (case seg of Ident p \<Rightarrow> True | Literal v \<Rightarrow> \<not> typeof_object v \<and> v \<noteq> JUndefined)"

text \<open>
  The text a segment contributes: the kebab-cased name of an identifier, the value of a
  literal wrapper as it stands, be it a string, a number, a boolean or a function. The
  tokens are joined by \<open>/\<close> behind one leading \<open>/\<close>.
\<close>

fun intersperse :: "'a \<Rightarrow> 'a list \<Rightarrow> 'a list" where
  "intersperse sep [] = []"
| "intersperse sep [x] = [x]"
| "intersperse sep (x # y # ys) = x # sep # intersperse sep (y # ys)"

fun literal_text :: "jsval \<Rightarrow> string" where
  "literal_text (JStr s) = s"
| "literal_text (JNum t) = t"
| "literal_text (JBool b) = (if b then ''true'' else ''false'')"
| "literal_text (JFun src) = src"
| "literal_text _ = []"

definition spec_token :: "(string \<Rightarrow> string) \<Rightarrow> segment \<Rightarrow> string" where
  "spec_token kebabCase seg = (case seg of Ident p \<Rightarrow> kebabCase p | Literal v \<Rightarrow> literal_text v)"

definition spec_compile :: "(string \<Rightarrow> string) \<Rightarrow> segment list \<Rightarrow> string" where
  "spec_compile kebabCase segments =
     CHR ''/'' # concat (intersperse ''/'' (map (spec_token kebabCase) segments))"

section \<open>Cache pipeline (api-client.js)\<close>

text \<open>
  The request handed to \<open>driver\<close>. \<open>objectHash\<close>, \<open>queryParamEncode\<close> and the transport
  \<open>this._driver\<close> (an axios instance) are collaborators, taken as parameters. Hooks and
  transport act on a world \<open>'w\<close>; every invocation is also recorded, in order, as an
  \<open>event\<close>, a hook by its index in \<open>this._cache\<close>.
\<close>

record request =
  req_url :: jsval
  req_method :: jsval
  params :: jsval
  data :: jsval

record 'w CacheHook =
  hook_req :: "string \<Rightarrow> request \<Rightarrow> 'w \<Rightarrow> (error + jsval) \<times> 'w"
  hook_res :: "string \<Rightarrow> request \<Rightarrow> jsval \<Rightarrow> 'w \<Rightarrow> error option \<times> 'w"

datatype event = ReqCalled nat | ResCalled nat | TransportCalled request | Logged error

text \<open>
  \<open>Promise.each\<close>: \<open>for (const item of arr) await fn(item)\<close>. What \<open>fn\<close> resolves to is
  dropped; a rejection ends the loop and rejects the whole. \<open>'s\<close> is everything \<open>fn\<close>
  can change.
\<close>

fun Promise_each :: "'a list \<Rightarrow> ('a \<Rightarrow> 's \<Rightarrow> error option \<times> 's) \<Rightarrow> 's \<Rightarrow> error option \<times> 's" where
  "Promise_each [] fn s = (None, s)"
| "Promise_each (item # arr) fn s =
     (case fn item s of
        (Some e, s') \<Rightarrow> (Some e, s')
      | (None, s') \<Rightarrow> Promise_each arr fn s')"

text \<open>
  \<open>proxyCacheReq\<close>. The callback assigns the hook's answer to the local \<open>res\<close> and
  returns \<open>false\<close> when it is defined, a value \<open>Promise.each\<close> never looks at.
\<close>

definition proxyCacheReq_fn ::
  "string \<Rightarrow> request \<Rightarrow> nat \<times> 'w CacheHook \<Rightarrow> jsval \<times> 'w \<times> event list
     \<Rightarrow> error option \<times> jsval \<times> 'w \<times> event list" where
  "proxyCacheReq_fn id' req = (\<lambda>(i, hook) (res, w, tr).
     case hook_req hook id' req w of
       (Inl e, w') \<Rightarrow> (Some e, (res, w', tr @ [ReqCalled i]))
     | (Inr v, w') \<Rightarrow> (None, (v, w', tr @ [ReqCalled i])))"

definition proxyCacheReq ::
  "'w CacheHook list \<Rightarrow> string \<Rightarrow> request \<Rightarrow> 'w \<Rightarrow> event list
     \<Rightarrow> (error + jsval) \<times> 'w \<times> event list" where
  "proxyCacheReq cache id' req w tr =
     (case Promise_each (zip [0..<length cache] cache) (proxyCacheReq_fn id' req)
             (JUndefined, w, tr) of
        (Some e, (res, w', tr')) \<Rightarrow> (Inl e, w', tr')
      | (None, (res, w', tr')) \<Rightarrow> (Inr res, w', tr'))"

text \<open>\<open>proxyCacheRes\<close>: each hook's \<open>res\<close> is awaited in turn; the pass resolves to \<open>res\<close>.\<close>

definition proxyCacheRes_fn ::
  "string \<Rightarrow> request \<Rightarrow> jsval \<Rightarrow> nat \<times> 'w CacheHook \<Rightarrow> 'w \<times> event list
     \<Rightarrow> error option \<times> 'w \<times> event list" where
  "proxyCacheRes_fn id' req res = (\<lambda>(i, hook) (w, tr).
     case hook_res hook id' req res w of
       (Some e, w') \<Rightarrow> (Some e, (w', tr @ [ResCalled i]))
     | (None, w') \<Rightarrow> (None, (w', tr @ [ResCalled i])))"

definition proxyCacheRes ::
  "'w CacheHook list \<Rightarrow> string \<Rightarrow> request \<Rightarrow> jsval \<Rightarrow> 'w \<Rightarrow> event list
     \<Rightarrow> (error + jsval) \<times> 'w \<times> event list" where
  "proxyCacheRes cache id' req res w tr =
     (case Promise_each (zip [0..<length cache] cache) (proxyCacheRes_fn id' req res) (w, tr) of
        (Some e, (w', tr')) \<Rightarrow> (Inl e, w', tr')
      | (None, (w', tr')) \<Rightarrow> (Inr res, w', tr'))"

record 'w pipeline_env =
  objectHash :: "request \<Rightarrow> string"
  queryParamEncode :: "jsval \<Rightarrow> jsval"
  transport :: "request \<Rightarrow> 'w \<Rightarrow> (error + jsval) \<times> 'w"

text \<open>
  \<open>driver\<close>. The promise of \<open>proxyCacheRes\<close> is not awaited: its \<open>catch\<close> logs a
  rejection, and \<open>res\<close> is returned whatever the pass does. The model runs the pass to its
  end and reports the world and the events after it, next to the value \<open>driver\<close> resolves
  or rejects with.
\<close>

definition driver ::
  "'w pipeline_env \<Rightarrow> 'w CacheHook list \<Rightarrow> request \<Rightarrow> 'w \<Rightarrow> event list
     \<Rightarrow> (error + jsval) \<times> 'w \<times> event list" where
  "driver env cache req w tr =
     (let id' = objectHash env req in
      case proxyCacheReq cache id' req w tr of
        (Inl e, w1, tr1) \<Rightarrow> (Inl e, w1, tr1)
      | (Inr cached, w1, tr1) \<Rightarrow>
          (let req' = (if truthy (params req)
                         then req\<lparr>params := queryParamEncode env (params req)\<rparr> else req)
           in if cached \<noteq> JUndefined then (Inr cached, w1, tr1)
              else
                (case transport env req' w1 of
                   (Inl e, w2) \<Rightarrow> (Inl e, w2, tr1 @ [TransportCalled req'])
                 | (Inr res, w2) \<Rightarrow>
                     (case proxyCacheRes cache id' req' res w2 (tr1 @ [TransportCalled req']) of
                        (Inl err, w3, tr3) \<Rightarrow> (Inr res, w3, tr3 @ [Logged err])
                      | (Inr _, w3, tr3) \<Rightarrow> (Inr res, w3, tr3)))))"

subsection \<open>The observation pass, stated on its own\<close>


section \<open>Realtime channel (ReduxClient) and session state (ApiClient)\<close>

text \<open>
  The fields of one client object: those of \<open>ReduxClient\<close>, then those of \<open>ApiClient\<close>.
  A token is \<open>null\<close> (\<open>None\<close>) or a string. Sockets are named by the order of their
  creation; what is done to them is appended to \<open>io\<close>, what the client emits to
  \<open>emitted\<close>. \<open>authorization\<close> is \<open>this._driver.defaults.headers.common['Authorization']\<close>
  and \<open>storage\<close> the item kept under \<open>credentialsStorageName\<close>.
  \<open>daemonSessionExpired\<close> is the timer that is armed, \<open>None\<close> when there is none or it has
  been cleared. The decoded token is an object whose \<open>sessionExpires\<close>, when present, is
  a number. Between an \<open>await\<close> and what follows it nothing else is taken to run.
\<close>

record profile =
  sessionExpires :: "int option"
  claims :: "(string \<times> jsval) list"

datatype emitted = Login "profile option" | Logout "profile option"

datatype socket_io =
    UnwireSocket nat
  | DisconnectSocket nat
  | OpenSocket nat "string option"
  | WireSocket nat

text \<open>The delay a timer is armed with: \<open>Math.round\<close> of a number, or \<open>NaN\<close>.\<close>

datatype delay = NaN | Ms int

record client =
  token :: "string option"
  isConnected :: bool
  isConnecting :: bool
  connectedAuth :: "string option"
  socket :: "nat option"
  sockets_made :: nat
  io :: "socket_io list"
  accessToken :: "string option"
  refreshToken :: "string option"
  userProfile :: "profile option"
  daemonSessionExpired :: "delay option"
  authorization :: "string option"
  storeCredentials :: bool
  storage :: "(string option \<times> string option) option"
  emitted :: "emitted list"

text \<open>Truthiness of a token: \<open>null\<close> and the empty string are falsy.\<close>

definition present :: "string option \<Rightarrow> bool" where
  "present t = (case t of None \<Rightarrow> False | Some s \<Rightarrow> s \<noteq> [])"

text \<open>
  \<open>ReduxClient.connect\<close>. The new socket carries the header \<open>Bearer <token>\<close> when
  \<open>this.token\<close> is truthy and none otherwise. Output to the console is left out.
\<close>

definition connect :: "client \<Rightarrow> client" where
  "connect c =
     (if connectedAuth c = token c \<and> (isConnected c \<or> isConnecting c) then c
      else
        (let c1 = c\<lparr>isConnecting := True, isConnected := False, connectedAuth := token c\<rparr>;
             auth = (case token c1 of
                       None \<Rightarrow> None
                     | Some t \<Rightarrow> if t \<noteq> [] then Some (''Bearer '' @ t) else None);
             c2 = (case socket c1 of
                     None \<Rightarrow> c1
                   | Some k \<Rightarrow> c1\<lparr>io := io c1 @ [UnwireSocket k, DisconnectSocket k]\<rparr>);
             theSocket = sockets_made c2
         in c2\<lparr>io := io c2 @ [OpenSocket theSocket auth, WireSocket theSocket],
                socket := Some theSocket,
                sockets_made := Suc theSocket\<rparr>))"

text \<open>The setter \<open>set token (v)\<close>.\<close>

definition set_token :: "string option \<Rightarrow> client \<Rightarrow> client" where
  "set_token v c = (let c1 = c\<lparr>token := v\<rparr> in if isConnected c1 then connect c1 else c1)"

text \<open>
  What the session code reads from outside: \<open>jwtDecode\<close> (which throws on a malformed
  token), \<open>Date.now()\<close>, \<open>process.client\<close> and \<open>config.revokeEndpoint\<close>.
\<close>

record session_env =
  jwtDecode :: "string \<Rightarrow> error + profile"
  now :: int
  process_client :: bool
  revokeEndpoint :: string

text \<open>
  \<open>setCredentials\<close>, \<open>_refreshCredentials\<close>, \<open>_sessionBeat\<close> and \<open>_localLogout\<close> call one
  another. Each returns the client as it has left it, with the error it threw, if any.
  The timer is armed with \<open>Math.round((sessionExpires - Date.now()) * .75)\<close>, which
  rounds halves up.
\<close>

function setCredentials :: "session_env \<Rightarrow> string option \<Rightarrow> string option \<Rightarrow> client \<Rightarrow> error option \<times> client"
  and refreshCredentials :: "session_env \<Rightarrow> client \<Rightarrow> error option \<times> client"
  and sessionBeat :: "session_env \<Rightarrow> client \<Rightarrow> error option \<times> client"
  and localLogout :: "session_env \<Rightarrow> client \<Rightarrow> error option \<times> client"
where
  "setCredentials env accessToken' refreshToken' c =
     refreshCredentials env
       ((if storeCredentials c \<and> process_client env
           then c\<lparr>storage := Some (accessToken', refreshToken')\<rparr> else c)
          \<lparr>accessToken := accessToken', refreshToken := refreshToken'\<rparr>)"
| "refreshCredentials env c =
     (let c1 = set_token (accessToken c) c in
      case (case accessToken c1 of
              None \<Rightarrow> Inr None
            | Some t \<Rightarrow> if t \<noteq> [] then map_sum id Some (jwtDecode env t) else Inr None) of
        Inl e \<Rightarrow> (Some e, c1)
      | Inr p \<Rightarrow>
          (case sessionBeat env (c1\<lparr>userProfile := p\<rparr>) of
             (Some e, c2) \<Rightarrow> (Some e, c2)
           | (None, c2) \<Rightarrow>
               (case accessToken c2 of
                  None \<Rightarrow> (None, c2\<lparr>authorization := None\<rparr>)
                | Some t \<Rightarrow>
                    if t = [] then (None, c2\<lparr>authorization := None\<rparr>)
                    else (None, c2\<lparr>authorization := Some (''Bearer '' @ t),
                                   emitted := emitted c2 @ [Login (userProfile c2)]\<rparr>))))"
| "sessionBeat env c =
     (let c1 = c\<lparr>daemonSessionExpired := None\<rparr> in
      if \<not> present (accessToken c1) \<or> userProfile c1 = None
         \<or> (case userProfile c1 of
               None \<Rightarrow> False
             | Some p \<Rightarrow> (case sessionExpires p of None \<Rightarrow> False | Some t \<Rightarrow> t \<le> now env))
        then localLogout env c1
      else (None, c1\<lparr>daemonSessionExpired :=
                       Some (case userProfile c1 of
                               None \<Rightarrow> NaN
                             | Some p \<Rightarrow>
                                 (case sessionExpires p of
                                    None \<Rightarrow> NaN
                                  | Some t \<Rightarrow> Ms ((3 * (t - now env) + 2) div 4)))\<rparr>))"
| "localLogout env c =
     (if \<not> present (accessToken c) then (None, c)
      else
        (let user = userProfile c in
         case setCredentials env None None c of
           (Some e, c') \<Rightarrow> (Some e, c')
         | (None, c') \<Rightarrow> (None, c'\<lparr>emitted := emitted c' @ [Logout user]\<rparr>)))"
  by pat_completeness auto
termination
  by (relation "measure (\<lambda>x. case x of
          Inl (Inl (env, a, r, c)) \<Rightarrow> (if present a then 4 else 0) + 3
        | Inl (Inr (env, c)) \<Rightarrow> (if present (accessToken c) then 4 else 0) + 2
        | Inr (Inl (env, c)) \<Rightarrow> (if present (accessToken c) then 4 else 0) + 1
        | Inr (Inr (env, c)) \<Rightarrow> (if present (accessToken c) then 4 else 0))")
     (auto simp: set_token_def connect_def Let_def present_def split: option.splits)

text \<open>
  \<open>logout\<close> and \<open>me\<close>: the revoke request goes to the transport \<open>this._driver\<close> directly
  and is awaited; a rejection of the awaited promise rejects the method there.
\<close>

definition revoke_request :: "session_env \<Rightarrow> request" where
  "revoke_request env =
     \<lparr>req_url = JStr (revokeEndpoint env), req_method = JStr ''post'',
      params = JUndefined, data = JUndefined\<rparr>"

definition logout ::
  "session_env \<Rightarrow> (request \<Rightarrow> 'w \<Rightarrow> (error + jsval) \<times> 'w) \<Rightarrow> client \<Rightarrow> 'w
     \<Rightarrow> error option \<times> client \<times> 'w" where
  "logout env driver' c w =
     (case driver' (revoke_request env) w of
        (Inl e, w') \<Rightarrow> (Some e, c, w')
      | (Inr _, w') \<Rightarrow> (let (r, c') = localLogout env c in (r, c', w')))"

definition me ::
  "session_env \<Rightarrow> (request \<Rightarrow> 'w \<Rightarrow> (error + jsval) \<times> 'w) \<Rightarrow> client \<Rightarrow> 'w
     \<Rightarrow> error option \<times> client \<times> 'w" where
  "me env driver' c w =
     (if \<not> present (accessToken c) then (None, c, w)
      else
        (case driver' (revoke_request env) w of
           (Inl e, w') \<Rightarrow> (Some e, c, w')
         | (Inr _, w') \<Rightarrow> (let (r, c') = localLogout env c in (r, c', w'))))"

section \<open>Sample inputs\<close>

text \<open>
  A cache hook that notes its calls in the world, answers \<open>req\<close> with \<open>answer\<close> and
  settles \<open>res\<close> with \<open>failure\<close>; a transport that resolves; a request.
\<close>

definition answering_hook :: "string \<Rightarrow> jsval \<Rightarrow> error option \<Rightarrow> string list CacheHook" where
  "answering_hook name answer failure =
     \<lparr>hook_req = (\<lambda>id' req w. (Inr answer, w @ [name @ ''.req''])),
      hook_res = (\<lambda>id' req res w. (failure, w @ [name @ ''.res'']))\<rparr>"

definition sample_pipeline :: "string list pipeline_env" where
  "sample_pipeline =
     \<lparr>objectHash = (\<lambda>req. ''id''),
      queryParamEncode = (\<lambda>p. p),
      transport = (\<lambda>req w. (Inr (JStr ''fresh''), w @ [''transport'']))\<rparr>"

definition sample_request :: request where
  "sample_request =
     \<lparr>req_url = JStr ''/user'', req_method = JStr ''get'', params = JUndefined, data = JUndefined\<rparr>"

text \<open>
  A method callback that knows \<open>fetch\<close> only and counts its calls; the client method
  \<open>cache\<close>, which pushes its argument and returns nothing.
\<close>

definition fetch_only :: "nat methodCallback" where
  "fetch_only m args n =
     (if m = Ident ''fetch'' then (Inr (JStr ''fetched''), Suc n) else (Inr JUndefined, Suc n))"

definition cache_method :: "jsval list \<Rightarrow> jsval list \<Rightarrow> (error + jsval) \<times> jsval list" where
  "cache_method args w = (Inr JUndefined, w @ take 1 args)"

definition sample_methods ::
  "string \<Rightarrow> (jsval list \<Rightarrow> jsval list \<Rightarrow> (error + jsval) \<times> jsval list) option" where
  "sample_methods name = (if name = ''cache'' then Some cache_method else None)"

text \<open>
  A decoder that knows the token \<open>tok\<close>, which expires at time 100; the session
  environment at a given time; a client as the constructors leave it before the first
  \<open>setCredentials\<close>, and one holding \<open>tok\<close>; transports that reject and resolve.
\<close>

definition sample_profile :: profile where
  "sample_profile = \<lparr>sessionExpires = Some 100, claims = [(''sub'', JStr ''u1'')]\<rparr>"

definition sample_jwtDecode :: "string \<Rightarrow> error + profile" where
  "sample_jwtDecode t =
     (if t = ''tok'' then Inr sample_profile else Inl (InvalidTokenError ''Invalid token specified''))"

definition sample_session :: "int \<Rightarrow> session_env" where
  "sample_session n =
     \<lparr>jwtDecode = sample_jwtDecode, now = n, process_client = False, revokeEndpoint = ''/revoke''\<rparr>"

definition fresh_client :: client where
  "fresh_client =
     \<lparr>token = None, isConnected = False, isConnecting = False, connectedAuth = None,
      socket = None, sockets_made = 0, io = [],
      accessToken = None, refreshToken = None, userProfile = None,
      daemonSessionExpired = None, authorization = None, storeCredentials = True,
      storage = None, emitted = []\<rparr>"

definition signed_in_client :: client where
  "signed_in_client =
     fresh_client\<lparr>token := Some ''tok'', accessToken := Some ''tok'', refreshToken := Some ''ref'',
       userProfile := Some sample_profile, daemonSessionExpired := Some (Ms 68),
       authorization := Some ''Bearer tok'', emitted := [Login (Some sample_profile)]\<rparr>"

definition rejecting_transport :: "request \<Rightarrow> unit \<Rightarrow> (error + jsval) \<times> unit" where
  "rejecting_transport req w = (Inl (Rejected (JStr ''timeout'')), w)"

definition resolving_transport :: "request \<Rightarrow> unit \<Rightarrow> (error + jsval) \<times> unit" where
  "resolving_transport req w = (Inr JNull, w)"

section \<open>Path compiler: properties\<close>

lemma join_intersperse: "join sep xs = concat (intersperse sep xs)"
  by (induction sep xs rule: join.induct) simp_all

lemma token_text:
  "accumulated seg \<Longrightarrow>
   (\<lambda>x. if x = JUndefined \<or> x = JNull then [] else js_toString x)
     (case seg of Literal v \<Rightarrow> v | Ident p \<Rightarrow> JStr (kc p)) = spec_token kc seg"
proof (cases seg)
  case (Ident p)
  then show ?thesis by (simp add: spec_token_def)
next
  case (Literal v)
  assume "accumulated seg"
  with Literal have "\<not> typeof_object v" "v \<noteq> JUndefined" by (simp_all add: accumulated_def)
  then have "js_toString v = literal_text v" "v \<noteq> JNull" "v \<noteq> JUndefined"
    by (cases v; simp)+
  with Literal show ?thesis by (simp add: spec_token_def)
qed

lemma element_texts:
  "list_all accumulated paths \<Longrightarrow>
   map (\<lambda>x. if x = JUndefined \<or> x = JNull then [] else js_toString x)
     (map (\<lambda>path. case path of Literal v \<Rightarrow> v | Ident p \<Rightarrow> JStr (kc p)) paths)
     = map (spec_token kc) paths"
proof (induction paths)
  case Nil
  then show ?case by simp
next
  case (Cons seg paths)
  then have "accumulated seg" "list_all accumulated paths" by simp_all
  with Cons.IH token_text[of seg kc] show ?case by simp
qed

lemma crudProxy_call_accumulated:
  "list_all accumulated paths \<Longrightarrow> list_all accumulated (snd (crudProxy_call thisArg args paths))"
  by (simp add: crudProxy_call_def Let_def accumulated_def dflt_def)

lemma handler_get_accumulated:
  "list_all accumulated paths \<Longrightarrow> list_all accumulated (snd (handler_get obj p paths))"
proof -
  assume a: "list_all accumulated paths"
  then have "list_all accumulated (paths @ [Ident p])" by (simp add: accumulated_def)
  from crudProxy_call_accumulated[OF this, of True "[]"] a show ?thesis
    by (cases "crudProxy_call True [] (paths @ [Ident p])")
       (auto simp add: handler_get_def split: sum.splits)
qed

lemma handler_apply_accumulated:
  assumes "list_all accumulated paths"
  shows "list_all accumulated (fst (snd (snd (handler_apply mc obj recv args paths w))))"
proof -
  have p: "\<And>ps. list_all accumulated ps \<Longrightarrow>
             list_all accumulated (snd (crudProxy_call recv args ps))"
    by (rule crudProxy_call_accumulated)
  show ?thesis
  proof (cases "\<exists>m. paths = [m]")
    case True
    then obtain m where m: "paths = [m]" by blast
    obtain r wa where r: "mc m args w = (r, wa)" by (cases "mc m args w")
    from p[OF assms] m have q: "list_all accumulated (snd (crudProxy_call recv args [m]))" by simp
    show ?thesis
    proof (cases r)
      case (Inl e)
      then show ?thesis by (simp add: handler_apply_def m r)
    next
      case (Inr v)
      then show ?thesis using q
        by (cases "crudProxy_call recv args [m]")
           (auto simp add: handler_apply_def m r split: sum.splits)
    qed
  next
    case False
    then have "handler_apply mc obj recv args paths w =
        (case crudProxy_call recv args paths of
           (Inl e, paths') \<Rightarrow> (Threw e, obj\<lparr>own_get := Some (JArr args)\<rparr>, paths', w)
         | (Inr p, paths') \<Rightarrow> (Chain p, obj\<lparr>own_get := Some (JArr args)\<rparr>, paths', w))"
      by (cases paths; cases "tl paths") (auto simp add: handler_apply_def)
    with p[OF assms] show ?thesis
      by (cases "crudProxy_call recv args paths") (auto split: sum.splits)
  qed
qed

lemma run_chain_accumulated:
  "list_all accumulated paths \<Longrightarrow>
   list_all accumulated (fst (snd (run_chain mc obj recv steps paths w)))"
proof (induction steps arbitrary: obj recv paths w)
  case Nil
  then show ?case by simp
next
  case (Cons s steps)
  show ?case
  proof (cases s)
    case (Prop p)
    obtain oc ps where g: "handler_get obj p paths = (oc, ps)" by (cases "handler_get obj p paths")
    with handler_get_accumulated[OF Cons.prems, of obj p] have ps: "list_all accumulated ps" by simp
    show ?thesis
    proof (cases oc)
      case (Chain o1)
      with Prop g Cons.IH[OF ps] show ?thesis by simp
    qed (use Prop g ps in simp_all)
  next
    case (Call args)
    obtain oc t ps wa where g: "handler_apply mc obj recv args paths w = (oc, t, ps, wa)"
      using prod_cases4 by blast
    with handler_apply_accumulated[OF Cons.prems, of mc obj recv args w]
    have ps: "list_all accumulated ps" by simp
    show ?thesis
    proof (cases oc)
      case (Chain o1)
      with Call g Cons.IH[OF ps] show ?thesis by simp
    qed (use Call g ps in simp_all)
  qed
qed

text \<open>
  Claim C5. For every sequence of path segments the proxy can have accumulated,
  \<open>pathsToUrl\<close> yields one leading \<open>/\<close> followed by the segments' tokens joined by \<open>/\<close>;
  the token of an identifier is its kebab-cased name, and the token of a literal wrapper is
  its value as it stands: a string literal is passed through whatever \<open>kebabCase\<close> would
  make of it, a number is written as JavaScript writes it. Every path that the traps build
  from accumulated segments consists of accumulated segments.
\<close>

theorem pathsToUrl_spec_compile:
  "(list_all accumulated paths \<longrightarrow> pathsToUrl kc paths = spec_compile kc paths)
 \<and> spec_token kc (Ident p) = kc p
 \<and> spec_token kc (Literal (JStr s)) = s
 \<and> spec_token kc (Literal (JNum t)) = t
 \<and> (list_all accumulated pathsA \<longrightarrow>
      list_all accumulated (fst (snd (run_chain mc obj recv steps pathsA w))))"
proof (intro conjI impI)
  assume "list_all accumulated paths"
  then show "pathsToUrl kc paths = spec_compile kc paths"
    unfolding pathsToUrl_def spec_compile_def array_join_def
    by (simp only: element_texts join_intersperse) simp
next
  assume "list_all accumulated pathsA"
  then show "list_all accumulated (fst (snd (run_chain mc obj recv steps pathsA w)))"
    by (rule run_chain_accumulated)
qed (simp_all add: spec_token_def)

theorem pathsToUrl_spec_compile_witness:
  "pathsToUrl id [Ident ''entities'', Ident ''user'', Literal (JStr ''123'')] = ''/entities/user/123''
 \<and> pathsToUrl id [Ident ''entities'', Ident ''user'', Literal (JNum ''1e+21'')] = ''/entities/user/1e+21''
 \<and> pathsToUrl id [Ident ''user'', Literal (JStr ''myId'')] = ''/user/myId''
 \<and> list_all accumulated
       (fst (snd (run_chain default_methodCallback (fst ApiProxy_root) False
                    [Prop ''entities'', Prop ''user'', Call [JNum ''123'']] [] ())))"
proof -
  have a: "list_all accumulated [Ident ''entities'', Ident ''user'', Literal (JStr ''123'')]"
    by (simp add: accumulated_def)
  have b: "list_all accumulated [Ident ''entities'', Ident ''user'', Literal (JNum ''1e+21'')]"
    by (simp add: accumulated_def)
  have c: "list_all accumulated [Ident ''user'', Literal (JStr ''myId'')]"
    by (simp add: accumulated_def)
  have n: "list_all accumulated []" by simp
  have A: "pathsToUrl id [Ident ''entities'', Ident ''user'', Literal (JStr ''123'')]
             = spec_compile id [Ident ''entities'', Ident ''user'', Literal (JStr ''123'')]"
    by (rule pathsToUrl_spec_compile[THEN conjunct1, THEN mp, OF a])
  have B: "pathsToUrl id [Ident ''entities'', Ident ''user'', Literal (JNum ''1e+21'')]
             = spec_compile id [Ident ''entities'', Ident ''user'', Literal (JNum ''1e+21'')]"
    by (rule pathsToUrl_spec_compile[THEN conjunct1, THEN mp, OF b])
  have C: "pathsToUrl id [Ident ''user'', Literal (JStr ''myId'')]
             = spec_compile id [Ident ''user'', Literal (JStr ''myId'')]"
    by (rule pathsToUrl_spec_compile[THEN conjunct1, THEN mp, OF c])
  have D: "list_all accumulated
       (fst (snd (run_chain default_methodCallback (fst ApiProxy_root) False
                    [Prop ''entities'', Prop ''user'', Call [JNum ''123'']] [] ())))"
    by (rule pathsToUrl_spec_compile
               [THEN conjunct2, THEN conjunct2, THEN conjunct2, THEN conjunct2, THEN mp, OF n])
  show ?thesis unfolding A B C using D by (simp add: spec_compile_def spec_token_def)
qed

section \<open>Call-path proxy: properties\<close>

text \<open>
  Claim C4. When the \<open>apply\<close> trap runs with exactly one segment on the path, the
  \<open>methodCallback\<close> is called once with that segment and the call's arguments. A defined
  answer is returned as it is, with the path left empty. On \<open>undefined\<close> the segment is
  put back and the call goes on as a call on a path that is not looked into does
  (\<open>target.get = args\<close>, then \<open>crudProxy\<close> on the path), here on the path \<open>[m]\<close>.
\<close>

theorem handler_apply_method_peek:
  "(mc m args w = (Inr res, w') \<and> res \<noteq> JUndefined \<longrightarrow>
      handler_apply mc target thisArg args [m] w = (Returned res, target, [], w'))
 \<and> (mc m args w = (Inr JUndefined, w') \<longrightarrow>
      handler_apply mc target thisArg args [m] w =
        (case crudProxy_call thisArg args [m] of
           (Inl e, paths') \<Rightarrow> (Threw e, target\<lparr>own_get := Some (JArr args)\<rparr>, paths', w')
         | (Inr p, paths') \<Rightarrow> (Chain p, target\<lparr>own_get := Some (JArr args)\<rparr>, paths', w')))
 \<and> (length paths \<noteq> 1 \<longrightarrow>
      handler_apply mc target thisArg args paths w =
        (case crudProxy_call thisArg args paths of
           (Inl e, paths') \<Rightarrow> (Threw e, target\<lparr>own_get := Some (JArr args)\<rparr>, paths', w)
         | (Inr p, paths') \<Rightarrow> (Chain p, target\<lparr>own_get := Some (JArr args)\<rparr>, paths', w)))"
proof (intro conjI impI)
  assume "mc m args w = (Inr res, w') \<and> res \<noteq> JUndefined"
  then show "handler_apply mc target thisArg args [m] w = (Returned res, target, [], w')"
    by (simp add: handler_apply_def)
next
  assume "mc m args w = (Inr JUndefined, w')"
  then show "handler_apply mc target thisArg args [m] w =
        (case crudProxy_call thisArg args [m] of
           (Inl e, paths') \<Rightarrow> (Threw e, target\<lparr>own_get := Some (JArr args)\<rparr>, paths', w')
         | (Inr p, paths') \<Rightarrow> (Chain p, target\<lparr>own_get := Some (JArr args)\<rparr>, paths', w'))"
    by (simp add: handler_apply_def)
next
  assume "length paths \<noteq> 1"
  then show "handler_apply mc target thisArg args paths w =
        (case crudProxy_call thisArg args paths of
           (Inl e, paths') \<Rightarrow> (Threw e, target\<lparr>own_get := Some (JArr args)\<rparr>, paths', w)
         | (Inr p, paths') \<Rightarrow> (Chain p, target\<lparr>own_get := Some (JArr args)\<rparr>, paths', w))"
    by (cases paths; cases "tl paths") (auto simp add: handler_apply_def)
qed

theorem handler_apply_method_peek_witness:
  "handler_apply fetch_only \<lparr>own_get = Some (JObj [])\<rparr> True [JStr ''x''] [Ident ''fetch''] 0
     = (Returned (JStr ''fetched''), \<lparr>own_get = Some (JObj [])\<rparr>, [], 1)
 \<and> handler_apply fetch_only \<lparr>own_get = Some (JObj [])\<rparr> True [JStr ''x''] [Ident ''user''] 0
     = (Chain \<lparr>own_get = Some (JObj [])\<rparr>, \<lparr>own_get = Some (JArr [JStr ''x''])\<rparr>,
        [Ident ''user'', Literal (JStr ''x'')], 1)
 \<and> handler_apply fetch_only \<lparr>own_get = Some (JObj [])\<rparr> True [JStr ''x'']
       [Ident ''entities'', Ident ''user''] 0
     = (Chain \<lparr>own_get = Some (JObj [])\<rparr>, \<lparr>own_get = Some (JArr [JStr ''x''])\<rparr>,
        [Ident ''entities'', Ident ''user'', Literal (JStr ''x'')], 0)"
proof -
  have a: "fetch_only (Ident ''fetch'') [JStr ''x''] 0 = (Inr (JStr ''fetched''), 1)
             \<and> JStr ''fetched'' \<noteq> JUndefined"
    by (simp add: fetch_only_def)
  have b: "fetch_only (Ident ''user'') [JStr ''x''] 0 = (Inr JUndefined, 1)"
    by (simp add: fetch_only_def)
  have l: "length [Ident ''entities'', Ident ''user''] \<noteq> 1" by simp
  have c: "crudProxy_call True [JStr ''x''] [Ident ''user'']
             = (Inr \<lparr>own_get = Some (JObj [])\<rparr>, [Ident ''user'', Literal (JStr ''x'')])"
    by (simp add: crudProxy_call_def dflt_def)
  have d: "crudProxy_call True [JStr ''x''] [Ident ''entities'', Ident ''user'']
             = (Inr \<lparr>own_get = Some (JObj [])\<rparr>,
                [Ident ''entities'', Ident ''user'', Literal (JStr ''x'')])"
    by (simp add: crudProxy_call_def dflt_def)
  from a handler_apply_method_peek
         [where mc = fetch_only and m = "Ident ''fetch''" and args = "[JStr ''x'']" and w = 0
            and res = "JStr ''fetched''" and w' = 1
            and target = "\<lparr>own_get = Some (JObj [])\<rparr>" and thisArg = True]
  have A: "handler_apply fetch_only \<lparr>own_get = Some (JObj [])\<rparr> True [JStr ''x''] [Ident ''fetch''] 0
             = (Returned (JStr ''fetched''), \<lparr>own_get = Some (JObj [])\<rparr>, [], 1)"
    by blast
  from b handler_apply_method_peek
         [where mc = fetch_only and m = "Ident ''user''" and args = "[JStr ''x'']" and w = 0
            and w' = 1 and target = "\<lparr>own_get = Some (JObj [])\<rparr>" and thisArg = True]
  have B: "handler_apply fetch_only \<lparr>own_get = Some (JObj [])\<rparr> True [JStr ''x''] [Ident ''user''] 0
             = (case crudProxy_call True [JStr ''x''] [Ident ''user''] of
                  (Inl e, paths') \<Rightarrow>
                    (Threw e, \<lparr>own_get = Some (JObj [])\<rparr>\<lparr>own_get := Some (JArr [JStr ''x''])\<rparr>, paths', 1)
                | (Inr p, paths') \<Rightarrow>
                    (Chain p, \<lparr>own_get = Some (JObj [])\<rparr>\<lparr>own_get := Some (JArr [JStr ''x''])\<rparr>, paths', 1))"
    by blast
  have C: "handler_apply fetch_only \<lparr>own_get = Some (JObj [])\<rparr> True [JStr ''x'']
             [Ident ''entities'', Ident ''user''] 0
             = (case crudProxy_call True [JStr ''x''] [Ident ''entities'', Ident ''user''] of
                  (Inl e, paths') \<Rightarrow>
                    (Threw e, \<lparr>own_get = Some (JObj [])\<rparr>\<lparr>own_get := Some (JArr [JStr ''x''])\<rparr>, paths', 0)
                | (Inr p, paths') \<Rightarrow>
                    (Chain p, \<lparr>own_get = Some (JObj [])\<rparr>\<lparr>own_get := Some (JArr [JStr ''x''])\<rparr>, paths', 0))"
    by (rule handler_apply_method_peek
               [where mc = fetch_only and args = "[JStr ''x'']" and w = 0
                  and paths = "[Ident ''entities'', Ident ''user'']"
                  and target = "\<lparr>own_get = Some (JObj [])\<rparr>" and thisArg = True,
                THEN conjunct2, THEN conjunct2, THEN mp, OF l])
  show ?thesis using A B C by (simp add: c d)
qed

lemma compile_Inr: "compile kc nxt t obj paths w = (Inr r, paths', w') \<Longrightarrow> paths' = []"
  by (cases t)
     (auto simp: compile_def crud_create_def crud_update_def crud_delete_def crud_then_def
                 deliverState_def split: prod.splits if_splits)

lemma drive_Compiled: "drive kc mc nxt chain paths w = (Compiled r, paths', w') \<Longrightarrow> paths' = []"
  by (auto simp: drive_def split: prod.splits outcome.splits sum.splits dest: compile_Inr)

text \<open>
  Claim C6. Every terminal action that compiles (\<open>create\<close>, \<open>update\<close>, \<open>delete\<close>, the
  implicit read through \<open>then\<close> or \<open>valueOf\<close>) leaves the shared path empty. So when a
  chain driven from the root has compiled, the next chain driven from that root runs as
  on a fresh, empty path: nothing of the first chain is in its URL.
\<close>

theorem compile_resets_paths:
  "(compile kc nxt t obj paths w = (Inr r, paths', w') \<longrightarrow> paths' = [])
 \<and> snd (crud_valueOf kc obj paths) = []
 \<and> (drive kc mc nxt chainA paths w = (Compiled rA, pathsA, wA) \<longrightarrow>
      pathsA = [] \<and> drive kc mc nxt chainB pathsA wA = drive kc mc nxt chainB [] wA)"
proof (intro conjI impI)
  assume "compile kc nxt t obj paths w = (Inr r, paths', w')"
  then show "paths' = []" by (rule compile_Inr)
next
  show "snd (crud_valueOf kc obj paths) = []"
    by (simp add: crud_valueOf_def deliverState_def split: prod.splits)
next
  assume d: "drive kc mc nxt chainA paths w = (Compiled rA, pathsA, wA)"
  then show "pathsA = []" by (rule drive_Compiled)
  then show "drive kc mc nxt chainB pathsA wA = drive kc mc nxt chainB [] wA" by simp
qed

theorem compile_resets_paths_witness:
  "compile id default_next (Create (JObj [(''name'', JStr ''x'')])) \<lparr>own_get = Some (JObj [])\<rparr>
     [Ident ''entities'', Ident ''user''] ()
     = (Inr \<lparr>url = ''/entities/user'', http_method = JStr ''post'', get = JObj [],
             body = JObj [(''name'', JStr ''x'')]\<rparr>, [], ())
 \<and> drive id default_methodCallback default_next
       ([Prop ''entities'', Prop ''user''], Create (JObj [(''name'', JStr ''x'')])) [Ident ''stale''] ()
     = (Compiled \<lparr>url = ''/stale/entities/user'', http_method = JStr ''post'', get = JObj [],
                  body = JObj [(''name'', JStr ''x'')]\<rparr>, [], ())
 \<and> drive id default_methodCallback default_next
       ([Prop ''entities'', Prop ''user'', Call [JStr ''id'']], Delete [])
       (fst (snd (drive id default_methodCallback default_next
                    ([Prop ''entities'', Prop ''user''], Create (JObj [(''name'', JStr ''x'')]))
                    [Ident ''stale''] ())))
       ()
     = (Compiled \<lparr>url = ''/entities/user/id'', http_method = JStr ''delete'', get = JObj [],
                  body = JObj []\<rparr>, [], ())"
proof -
  let ?first = "drive id default_methodCallback default_next
       ([Prop ''entities'', Prop ''user''], Create (JObj [(''name'', JStr ''x'')])) [Ident ''stale''] ()"
  have c: "compile id default_next (Create (JObj [(''name'', JStr ''x'')])) \<lparr>own_get = Some (JObj [])\<rparr>
     [Ident ''entities'', Ident ''user''] ()
     = (Inr \<lparr>url = ''/entities/user'', http_method = JStr ''post'', get = JObj [],
             body = JObj [(''name'', JStr ''x'')]\<rparr>, [], ())"
    by code_simp
  have d1: "?first
     = (Compiled \<lparr>url = ''/stale/entities/user'', http_method = JStr ''post'', get = JObj [],
                  body = JObj [(''name'', JStr ''x'')]\<rparr>, [], ())"
    by code_simp
  then have h: "?first
     = (Compiled \<lparr>url = ''/stale/entities/user'', http_method = JStr ''post'', get = JObj [],
                  body = JObj [(''name'', JStr ''x'')]\<rparr>, fst (snd ?first), ())"
    by simp
  have d2: "drive id default_methodCallback default_next
       ([Prop ''entities'', Prop ''user'', Call [JStr ''id'']], Delete []) [] ()
     = (Compiled \<lparr>url = ''/entities/user/id'', http_method = JStr ''delete'', get = JObj [],
                  body = JObj []\<rparr>, [], ())"
    by code_simp
  have e: "drive id default_methodCallback default_next
          ([Prop ''entities'', Prop ''user'', Call [JStr ''id'']], Delete []) (fst (snd ?first)) ()
        = drive id default_methodCallback default_next
          ([Prop ''entities'', Prop ''user'', Call [JStr ''id'']], Delete []) [] ()"
    by (rule compile_resets_paths
        [where kc = id and mc = default_methodCallback and nxt = default_next
           and chainA = "([Prop ''entities'', Prop ''user''], Create (JObj [(''name'', JStr ''x'')]))"
           and paths = "[Ident ''stale'']" and w = "()" and pathsA = "fst (snd ?first)" and wA = "()"
           and rA = "\<lparr>url = ''/stale/entities/user'', http_method = JStr ''post'', get = JObj [],
                         body = JObj [(''name'', JStr ''x'')]\<rparr>"
           and chainB = "([Prop ''entities'', Prop ''user'', Call [JStr ''id'']], Delete [])",
         THEN conjunct2, THEN conjunct2, THEN mp, OF h, THEN conjunct2])
  from c d1 show ?thesis unfolding e d2 by simp
qed

lemma handler_get_Chain:
  "handler_get obj p paths = (Chain obj', paths') \<Longrightarrow> own_get obj' \<noteq> None"
  by (auto simp: handler_get_def crudProxy_call_def dflt_def split: if_splits)

lemma handler_apply_Chain:
  "handler_apply mc obj recv args paths w = (Chain obj', t, paths', w') \<Longrightarrow> own_get obj' \<noteq> None"
  by (auto simp: handler_apply_def crudProxy_call_def Let_def
           split: list.splits prod.splits sum.splits if_splits)

text \<open>Every proxy but the root has a staged query.\<close>

lemma run_chain_own_get:
  "run_chain mc obj recv steps paths w = (Chain obj', paths', w')
   \<Longrightarrow> own_get obj \<noteq> None \<or> steps \<noteq> [] \<Longrightarrow> own_get obj' \<noteq> None"
proof (induction steps arbitrary: obj recv paths w)
  case Nil
  then show ?case by simp
next
  case (Cons s steps)
  show ?case
  proof (cases s)
    case (Prop p)
    obtain oc ps where g: "handler_get obj p paths = (oc, ps)" by (cases "handler_get obj p paths")
    with Cons.prems(1) Prop obtain o1 where o1: "oc = Chain o1"
      by (cases oc) auto
    with g have "own_get o1 \<noteq> None" by (auto dest: handler_get_Chain)
    moreover from Cons.prems(1) Prop g o1
    have "run_chain mc o1 True steps ps w = (Chain obj', paths', w')" by simp
    ultimately show ?thesis using Cons.IH by blast
  next
    case (Call args)
    obtain oc t ps wa where g: "handler_apply mc obj recv args paths w = (oc, t, ps, wa)"
      using prod_cases4 by blast
    with Cons.prems(1) Call obtain o1 where o1: "oc = Chain o1"
      by (cases oc) auto
    with g have "own_get o1 \<noteq> None" by (auto dest: handler_apply_Chain)
    moreover from Cons.prems(1) Call g o1
    have "run_chain mc o1 False steps ps wa = (Chain obj', paths', w')" by simp
    ultimately show ?thesis using Cons.IH by blast
  qed
qed

text \<open>
  Claim C7. \<open>delete\<close> called with any argument throws at once, before the path is
  touched or \<open>next\<close> is called. Called with none on a proxy that has a staged query, as
  every proxy a chain of at least one step evaluates to has, it hands \<open>next\<close> the request
  \<open>{url, method: 'delete', get: query, body: {}}\<close> compiled from the path, and empties the
  path. \<open>proxy.entities.user('id').delete()\<close> compiles to \<open>/entities/user/id\<close> with an
  empty query and body, and \<open>.delete('x')\<close> on that chain fails. (On the bare root, which
  has no \<open>get\<close> of its own, reading \<open>this.get\<close> first appends the segment \<open>get\<close>.)
\<close>

theorem crud_delete_contract:
  "(arguments \<noteq> [] \<longrightarrow>
      crud_delete kc nxt obj arguments paths w
        = (Inl (Error ''Method delete does not take any arguments''), paths, w))
 \<and> (own_get obj = Some q \<longrightarrow>
      crud_delete kc nxt obj [] paths w
        = (Inr (fst (nxt \<lparr>url = pathsToUrl kc paths, http_method = JStr ''delete'',
                            get = dflt (JObj []) q, body = JObj []\<rparr> w)),
           [],
           snd (nxt \<lparr>url = pathsToUrl kc paths, http_method = JStr ''delete'',
                       get = dflt (JObj []) q, body = JObj []\<rparr> w)))
 \<and> (run_chain mc (fst ApiProxy_root) recv steps pathsA wa = (Chain obj, paths, w) \<and> steps \<noteq> [] \<longrightarrow>
      own_get obj \<noteq> None)
 \<and> (own_get obj = None \<longrightarrow>
      crud_delete kc nxt obj [] paths w
        = (Inr (fst (nxt \<lparr>url = pathsToUrl kc (paths @ [Ident ''get'']), http_method = JStr ''delete'',
                            get = JFun ''crudProxy'', body = JObj []\<rparr> w)),
           [],
           snd (nxt \<lparr>url = pathsToUrl kc (paths @ [Ident ''get'']), http_method = JStr ''delete'',
                       get = JFun ''crudProxy'', body = JObj []\<rparr> w)))
 \<and> drive kc default_methodCallback default_next
       ([Prop ''entities'', Prop ''user'', Call [JStr ''id'']], Delete []) [] w
     = (Compiled \<lparr>url = ''/'' @ kc ''entities'' @ ''/'' @ kc ''user'' @ ''/id'',
                  http_method = JStr ''delete'', get = JObj [], body = JObj []\<rparr>, [], w)
 \<and> drive kc default_methodCallback default_next
       ([Prop ''entities'', Prop ''user'', Call [JStr ''id'']], Delete [JStr ''x'']) [] w
     = (Failed (Error ''Method delete does not take any arguments''),
        [Ident ''entities'', Ident ''user'', Literal (JStr ''id'')], w)"
proof (intro conjI impI)
  assume "arguments \<noteq> []"
  then show "crud_delete kc nxt obj arguments paths w
        = (Inl (Error ''Method delete does not take any arguments''), paths, w)"
    by (simp add: crud_delete_def)
next
  assume "own_get obj = Some q"
  then show "crud_delete kc nxt obj [] paths w
        = (Inr (fst (nxt \<lparr>url = pathsToUrl kc paths, http_method = JStr ''delete'',
                            get = dflt (JObj []) q, body = JObj []\<rparr> w)),
           [],
           snd (nxt \<lparr>url = pathsToUrl kc paths, http_method = JStr ''delete'',
                       get = dflt (JObj []) q, body = JObj []\<rparr> w))"
    by (simp add: crud_delete_def this_get_def deliverState_def dflt_def split: prod.splits)
next
  assume h: "run_chain mc (fst ApiProxy_root) recv steps pathsA wa = (Chain obj, paths, w) \<and> steps \<noteq> []"
  show "own_get obj \<noteq> None"
    by (rule run_chain_own_get[OF h[THEN conjunct1] disjI2[OF h[THEN conjunct2]]])
next
  assume "own_get obj = None"
  then show "crud_delete kc nxt obj [] paths w
        = (Inr (fst (nxt \<lparr>url = pathsToUrl kc (paths @ [Ident ''get'']), http_method = JStr ''delete'',
                            get = JFun ''crudProxy'', body = JObj []\<rparr> w)),
           [],
           snd (nxt \<lparr>url = pathsToUrl kc (paths @ [Ident ''get'']), http_method = JStr ''delete'',
                       get = JFun ''crudProxy'', body = JObj []\<rparr> w))"
    by (simp add: crud_delete_def this_get_def deliverState_def dflt_def split: prod.splits)
next
  show "drive kc default_methodCallback default_next
       ([Prop ''entities'', Prop ''user'', Call [JStr ''id'']], Delete []) [] w
     = (Compiled \<lparr>url = ''/'' @ kc ''entities'' @ ''/'' @ kc ''user'' @ ''/id'',
                  http_method = JStr ''delete'', get = JObj [], body = JObj []\<rparr>, [], w)"
    by (simp add: drive_def ApiProxy_root_def handler_get_def hasOwnProperty_def crudProxy_call_def
          handler_apply_def dflt_def compile_def crud_delete_def this_get_def deliverState_def
          pathsToUrl_def array_join_def default_next_def)
next
  show "drive kc default_methodCallback default_next
       ([Prop ''entities'', Prop ''user'', Call [JStr ''id'']], Delete [JStr ''x'']) [] w
     = (Failed (Error ''Method delete does not take any arguments''),
        [Ident ''entities'', Ident ''user'', Literal (JStr ''id'')], w)"
    by (simp add: drive_def ApiProxy_root_def handler_get_def hasOwnProperty_def crudProxy_call_def
          handler_apply_def dflt_def compile_def crud_delete_def)
qed

theorem crud_delete_contract_witness:
  "crud_delete id default_next \<lparr>own_get = Some (JObj [(''id'', JStr ''my-id'')])\<rparr> [JStr ''x'']
     [Ident ''entities'', Ident ''user''] ()
     = (Inl (Error ''Method delete does not take any arguments''),
        [Ident ''entities'', Ident ''user''], ())
 \<and> crud_delete id default_next \<lparr>own_get = Some (JObj [(''id'', JStr ''my-id'')])\<rparr> []
     [Ident ''entities'', Ident ''user''] ()
     = (Inr \<lparr>url = ''/entities/user'', http_method = JStr ''delete'',
             get = JObj [(''id'', JStr ''my-id'')], body = JObj []\<rparr>, [], ())
 \<and> run_chain default_methodCallback (fst ApiProxy_root) False
       [Prop ''entities'', Prop ''user'', Call [JObj [(''id'', JStr ''my-id'')]]] [] ()
     = (Chain \<lparr>own_get = Some (JObj [(''id'', JStr ''my-id'')])\<rparr>,
        [Ident ''entities'', Ident ''user''], ())
 \<and> crud_delete id default_next (fst ApiProxy_root) [] [] ()
     = (Inr \<lparr>url = ''/get'', http_method = JStr ''delete'', get = JFun ''crudProxy'',
             body = JObj []\<rparr>, [], ())"
proof -
  have a: "[JStr ''x''] \<noteq> []" by simp
  have b: "own_get \<lparr>own_get = Some (JObj [(''id'', JStr ''my-id'')])\<rparr> = Some (JObj [(''id'', JStr ''my-id'')])"
    by simp
  have r: "run_chain default_methodCallback (fst ApiProxy_root) False
       [Prop ''entities'', Prop ''user'', Call [JObj [(''id'', JStr ''my-id'')]]] [] ()
     = (Chain \<lparr>own_get = Some (JObj [(''id'', JStr ''my-id'')])\<rparr>,
        [Ident ''entities'', Ident ''user''], ())"
    by code_simp
  have s: "[Prop ''entities'', Prop ''user'', Call [JObj [(''id'', JStr ''my-id'')]]] \<noteq> []" by simp
  have n: "own_get (fst ApiProxy_root) = None" by (simp add: ApiProxy_root_def)
  note T = crud_delete_contract
        [where kc = id and nxt = default_next
           and obj = "\<lparr>own_get = Some (JObj [(''id'', JStr ''my-id'')])\<rparr>"
           and q = "JObj [(''id'', JStr ''my-id'')]"
           and paths = "[Ident ''entities'', Ident ''user'']" and w = "()"]
  have A: "crud_delete id default_next \<lparr>own_get = Some (JObj [(''id'', JStr ''my-id'')])\<rparr> [JStr ''x'']
     [Ident ''entities'', Ident ''user''] ()
     = (Inl (Error ''Method delete does not take any arguments''),
        [Ident ''entities'', Ident ''user''], ())"
    by (rule T[where arguments = "[JStr ''x'']", THEN conjunct1, THEN mp, OF a])
  have B: "crud_delete id default_next \<lparr>own_get = Some (JObj [(''id'', JStr ''my-id'')])\<rparr> []
     [Ident ''entities'', Ident ''user''] ()
     = (Inr (fst (default_next \<lparr>url = pathsToUrl id [Ident ''entities'', Ident ''user''],
                                 http_method = JStr ''delete'',
                                 get = dflt (JObj []) (JObj [(''id'', JStr ''my-id'')]),
                                 body = JObj []\<rparr> ())),
           [],
           snd (default_next \<lparr>url = pathsToUrl id [Ident ''entities'', Ident ''user''],
                                 http_method = JStr ''delete'',
                                 get = dflt (JObj []) (JObj [(''id'', JStr ''my-id'')]),
                                 body = JObj []\<rparr> ()))"
    by (rule T[THEN conjunct2, THEN conjunct1, THEN mp, OF b])
  have C: "own_get \<lparr>own_get = Some (JObj [(''id'', JStr ''my-id'')])\<rparr> \<noteq> None"
    by (rule T[where mc = default_methodCallback and recv = False and pathsA = "[]" and wa = "()"
               and steps = "[Prop ''entities'', Prop ''user'', Call [JObj [(''id'', JStr ''my-id'')]]]",
             THEN conjunct2, THEN conjunct2, THEN conjunct1, THEN mp, OF conjI, OF r s])
  have D: "crud_delete id default_next (fst ApiProxy_root) [] [] ()
     = (Inr (fst (default_next \<lparr>url = pathsToUrl id ([] @ [Ident ''get'']),
                                 http_method = JStr ''delete'',
                                 get = JFun ''crudProxy'', body = JObj []\<rparr> ())),
           [],
           snd (default_next \<lparr>url = pathsToUrl id ([] @ [Ident ''get'']),
                                 http_method = JStr ''delete'',
                                 get = JFun ''crudProxy'', body = JObj []\<rparr> ()))"
    by (rule crud_delete_contract
        [where kc = id and nxt = default_next and obj = "fst ApiProxy_root"
           and paths = "[]" and w = "()",
         THEN conjunct2, THEN conjunct2, THEN conjunct2, THEN conjunct1, THEN mp, OF n])
  have B': "crud_delete id default_next \<lparr>own_get = Some (JObj [(''id'', JStr ''my-id'')])\<rparr> []
     [Ident ''entities'', Ident ''user''] ()
     = (Inr \<lparr>url = ''/entities/user'', http_method = JStr ''delete'',
             get = JObj [(''id'', JStr ''my-id'')], body = JObj []\<rparr>, [], ())"
    unfolding B by (simp add: default_next_def pathsToUrl_def array_join_def dflt_def)
  have D': "crud_delete id default_next (fst ApiProxy_root) [] [] ()
     = (Inr \<lparr>url = ''/get'', http_method = JStr ''delete'', get = JFun ''crudProxy'',
             body = JObj []\<rparr>, [], ())"
    unfolding D by (simp add: default_next_def pathsToUrl_def array_join_def)
  from A B' r D' show ?thesis by (intro conjI)
qed

text \<open>
  Claim C10. Through the proxy, a call \<open>client.m(args)\<close> of a client method that
  returns a falsy value (\<open>undefined\<close>, \<open>null\<close>, \<open>false\<close>, \<open>0\<close>, the empty string) yields
  \<open>true\<close>: the client's \<open>methodCallback\<close> answers \<open>$this[method](...args) || true\<close>, the
  \<open>apply\<close> trap returns that answer and leaves the path empty.
\<close>

theorem client_methodCallback_falsy:
  "methods name = Some f \<Longrightarrow> f args w = (Inr v, w') \<Longrightarrow> \<not> truthy v \<Longrightarrow>
   handler_apply (client_methodCallback methods) target thisArg args [Ident name] w
     = (Returned (JBool True), target, [], w')"
  by (simp add: handler_apply_def client_methodCallback_def)

theorem client_methodCallback_falsy_witness:
  "handler_apply (client_methodCallback sample_methods) \<lparr>own_get = Some (JObj [])\<rparr> True
     [JStr ''hook''] [Ident ''cache''] []
     = (Returned (JBool True), \<lparr>own_get = Some (JObj [])\<rparr>, [], [JStr ''hook''])"
proof -
  have a: "sample_methods ''cache'' = Some cache_method" by (simp add: sample_methods_def)
  have b: "cache_method [JStr ''hook''] [] = (Inr JUndefined, [JStr ''hook''])"
    by (simp add: cache_method_def)
  have c: "\<not> truthy JUndefined" by simp
  show ?thesis
    by (rule client_methodCallback_falsy
          [where methods = sample_methods and name = "''cache''" and f = cache_method
             and args = "[JStr ''hook'']" and w = "[]" and v = JUndefined and w' = "[JStr ''hook'']",
           OF a b c])
qed

section \<open>Cache pipeline: properties\<close>


text \<open>
  Claim C1 (what the code does at an input where it departs from the claim). Two hooks
  are registered; the first answers \<open>req\<close> with a defined value, the second with
  \<open>undefined\<close>. \<open>Promise.each\<close> takes no notice of the callback's \<open>return false\<close>: the
  second hook's \<open>req\<close> is called too and its answer overwrites the first, so the transport
  is called and its response is returned instead of the cached value. When the second hook
  answers with a value of its own, that value is returned, not the first hook's.
\<close>

theorem driver_req_pass_runs_on:
  "driver sample_pipeline
     [answering_hook ''a'' (JStr ''cached'') None, answering_hook ''b'' JUndefined None]
     sample_request [] []
     = (Inr (JStr ''fresh''),
        [''a.req'', ''b.req'', ''transport'', ''a.res'', ''b.res''],
        [ReqCalled 0, ReqCalled 1, TransportCalled sample_request, ResCalled 0, ResCalled 1])
 \<and> driver sample_pipeline
     [answering_hook ''a'' (JStr ''cached'') None, answering_hook ''b'' (JStr ''other'') None]
     sample_request [] []
     = (Inr (JStr ''other''), [''a.req'', ''b.req''], [ReqCalled 0, ReqCalled 1])"
  by code_simp








section \<open>Session state: properties\<close>

declare setCredentials.simps [simp del] refreshCredentials.simps [simp del]
  sessionBeat.simps [simp del] localLogout.simps [simp del]

lemma set_token_fields:
  "accessToken (set_token v c) = accessToken c"
  "refreshToken (set_token v c) = refreshToken c"
  "emitted (set_token v c) = emitted c"
  "authorization (set_token v c) = authorization c"
  "userProfile (set_token v c) = userProfile c"
  "storage (set_token v c) = storage c"
  by (simp_all add: set_token_def connect_def Let_def split: option.splits)

lemma localLogout_anonymous: "\<not> present (accessToken c) \<Longrightarrow> localLogout env c = (None, c)"
  by (subst localLogout.simps) simp

lemma sessionBeat_anonymous:
  "\<not> present (accessToken c) \<Longrightarrow> sessionBeat env c = (None, c\<lparr>daemonSessionExpired := None\<rparr>)"
  by (subst sessionBeat.simps) (simp add: localLogout_anonymous)

lemma refreshCredentials_anonymous:
  assumes "\<not> present (accessToken c)"
  shows "refreshCredentials env c =
           (None, (set_token (accessToken c) c)
                    \<lparr>userProfile := None, daemonSessionExpired := None, authorization := None\<rparr>)"
proof -
  have dec: "(case accessToken (set_token (accessToken c) c) of
              None \<Rightarrow> Inr None
            | Some t \<Rightarrow> if t \<noteq> [] then map_sum id Some (jwtDecode env t) else Inr None) = Inr None"
    using assms by (simp add: set_token_fields present_def split: option.splits)
  have np: "\<not> present (accessToken ((set_token (accessToken c) c)\<lparr>userProfile := None\<rparr>))"
    using assms by (simp add: set_token_fields)
  show ?thesis
    apply (subst refreshCredentials.simps)
    unfolding Let_def dec
    using assms
    by (simp add: sessionBeat_anonymous[OF np] set_token_fields present_def split: option.splits)
qed

lemma setCredentials_anonymous:
  assumes "\<not> present a"
  shows "fst (setCredentials env a r c) = None
       \<and> accessToken (snd (setCredentials env a r c)) = a
       \<and> refreshToken (snd (setCredentials env a r c)) = r
       \<and> authorization (snd (setCredentials env a r c)) = None
       \<and> userProfile (snd (setCredentials env a r c)) = None
       \<and> emitted (snd (setCredentials env a r c)) = emitted c"
  apply (subst (1 2 3 4 5 6) setCredentials.simps)
  using assms by (simp add: refreshCredentials_anonymous set_token_fields)

lemma localLogout_present:
  assumes "present (accessToken c)"
  shows "fst (localLogout env c) = None
       \<and> accessToken (snd (localLogout env c)) = None
       \<and> refreshToken (snd (localLogout env c)) = None
       \<and> authorization (snd (localLogout env c)) = None
       \<and> userProfile (snd (localLogout env c)) = None
       \<and> emitted (snd (localLogout env c)) = emitted c @ [Logout (userProfile c)]"
proof -
  have np: "\<not> present None" by (simp add: present_def)
  obtain r c' where sc: "setCredentials env None None c = (r, c')" by (cases "setCredentials env None None c")
  with setCredentials_anonymous[OF np, of env None c] have
    f: "r = None" "accessToken c' = None" "refreshToken c' = None" "authorization c' = None"
       "userProfile c' = None" "emitted c' = emitted c" by simp_all
  show ?thesis
    apply (subst (1 2 3 4 5 6) localLogout.simps)
    using assms by (simp add: sc f Let_def)
qed


lemma sessionBeat_valid:
  assumes "present (accessToken c)" "userProfile c = Some p"
      and "\<forall>x. sessionExpires p = Some x \<longrightarrow> now env < x"
  shows "fst (sessionBeat env c) = None
       \<and> accessToken (snd (sessionBeat env c)) = accessToken c
       \<and> refreshToken (snd (sessionBeat env c)) = refreshToken c
       \<and> authorization (snd (sessionBeat env c)) = authorization c
       \<and> userProfile (snd (sessionBeat env c)) = Some p
       \<and> emitted (snd (sessionBeat env c)) = emitted c"
  apply (subst (1 2 3 4 5 6) sessionBeat.simps)
  using assms by (auto simp: Let_def split: option.splits)

lemma sessionBeat_expired:
  assumes "present (accessToken c)" "userProfile c = Some p"
      and "sessionExpires p = Some x" "x \<le> now env"
  shows "sessionBeat env c = localLogout env (c\<lparr>daemonSessionExpired := None\<rparr>)"
  apply (subst sessionBeat.simps)
  using assms by (simp add: Let_def)

lemma refreshCredentials_unfold:
  assumes "accessToken c = Some t" "t \<noteq> []" "jwtDecode env t = Inr p"
  shows "refreshCredentials env c =
     (case sessionBeat env ((set_token (Some t) c)\<lparr>userProfile := Some p\<rparr>) of
             (Some e, c2) \<Rightarrow> (Some e, c2)
           | (None, c2) \<Rightarrow>
               (case accessToken c2 of
                  None \<Rightarrow> (None, c2\<lparr>authorization := None\<rparr>)
                | Some t \<Rightarrow>
                    if t = [] then (None, c2\<lparr>authorization := None\<rparr>)
                    else (None, c2\<lparr>authorization := Some (''Bearer '' @ t),
                                   emitted := emitted c2 @ [Login (userProfile c2)]\<rparr>)))"
  apply (subst refreshCredentials.simps)
  using assms by (simp add: Let_def set_token_fields)

lemma refreshCredentials_valid:
  assumes "accessToken c = Some t" "t \<noteq> []" "jwtDecode env t = Inr p"
      and "\<forall>x. sessionExpires p = Some x \<longrightarrow> now env < x"
  shows "fst (refreshCredentials env c) = None
       \<and> accessToken (snd (refreshCredentials env c)) = Some t
       \<and> refreshToken (snd (refreshCredentials env c)) = refreshToken c
       \<and> authorization (snd (refreshCredentials env c)) = Some (''Bearer '' @ t)
       \<and> userProfile (snd (refreshCredentials env c)) = Some p
       \<and> emitted (snd (refreshCredentials env c)) = emitted c @ [Login (Some p)]"
proof -
  let ?c1 = "(set_token (Some t) c)\<lparr>userProfile := Some p\<rparr>"
  have pr: "present (accessToken ?c1)" using assms(1,2) by (simp add: set_token_fields present_def)
  have up: "userProfile ?c1 = Some p" by simp
  obtain r c2 where sb: "sessionBeat env ?c1 = (r, c2)" by (cases "sessionBeat env ?c1")
  with sessionBeat_valid[OF pr up assms(4)] have
    f: "r = None" "accessToken c2 = Some t" "refreshToken c2 = refreshToken c"
       "userProfile c2 = Some p" "emitted c2 = emitted c"
    using assms(1) by (simp_all add: set_token_fields)
  show ?thesis
    unfolding refreshCredentials_unfold[OF assms(1,2,3)] sb
    using f assms(2) by simp
qed

lemma refreshCredentials_expired:
  assumes "accessToken c = Some t" "t \<noteq> []" "jwtDecode env t = Inr p"
      and "sessionExpires p = Some x" "x \<le> now env"
  shows "fst (refreshCredentials env c) = None
       \<and> accessToken (snd (refreshCredentials env c)) = None
       \<and> refreshToken (snd (refreshCredentials env c)) = None
       \<and> authorization (snd (refreshCredentials env c)) = None
       \<and> userProfile (snd (refreshCredentials env c)) = None
       \<and> emitted (snd (refreshCredentials env c)) = emitted c @ [Logout (Some p)]"
proof -
  let ?c1 = "(set_token (Some t) c)\<lparr>userProfile := Some p\<rparr>"
  let ?c1' = "?c1\<lparr>daemonSessionExpired := None\<rparr>"
  have pr: "present (accessToken ?c1)" using assms(1,2) by (simp add: set_token_fields present_def)
  have pr': "present (accessToken ?c1')" using pr by simp
  have up: "userProfile ?c1 = Some p" by simp
  obtain r c2 where sb: "sessionBeat env ?c1 = (r, c2)" by (cases "sessionBeat env ?c1")
  then have ll: "localLogout env ?c1' = (r, c2)"
    using sessionBeat_expired[OF pr up assms(4,5)] by simp
  with localLogout_present[OF pr', of env] have
    f: "r = None" "accessToken c2 = None" "refreshToken c2 = None" "authorization c2 = None"
       "userProfile c2 = None" "emitted c2 = emitted c @ [Logout (Some p)]"
    by (simp_all add: set_token_fields)
  show ?thesis
    unfolding refreshCredentials_unfold[OF assms(1,2,3)] sb
    using f by simp
qed

lemma setCredentials_refresh:
  "setCredentials env a r c =
     refreshCredentials env
       ((if storeCredentials c \<and> process_client env then c\<lparr>storage := Some (a, r)\<rparr> else c)
          \<lparr>accessToken := a, refreshToken := r\<rparr>)"
  by (subst setCredentials.simps) simp

lemma signed_in_client_reached:
  "setCredentials (sample_session 10) (Some ''tok'') (Some ''ref'') fresh_client
     = (None, signed_in_client)"
  by code_simp

text \<open>
  Claim C8, as amended. \<open>setCredentials\<close> replaces both tokens by its arguments, an
  absent one being \<open>null\<close>. With no access token (\<open>null\<close> or empty) the Authorization
  header is removed and the session profile is \<open>null\<close>. With an access token that decodes
  to a profile which has not expired (no \<open>sessionExpires\<close>, or one later than now), the
  header becomes \<open>Bearer <token>\<close> and the profile is the decoded one. With an access
  token whose profile has expired, the session beat logs the client out on the spot: both
  tokens end \<open>null\<close>, the header removed, the profile \<open>null\<close>.
\<close>

theorem setCredentials_outcomes:
  "(\<not> present a \<longrightarrow>
      fst (setCredentials env a r c) = None
    \<and> accessToken (snd (setCredentials env a r c)) = a
    \<and> refreshToken (snd (setCredentials env a r c)) = r
    \<and> authorization (snd (setCredentials env a r c)) = None
    \<and> userProfile (snd (setCredentials env a r c)) = None)
 \<and> (a = Some t \<and> t \<noteq> [] \<and> jwtDecode env t = Inr p
      \<and> (\<forall>x. sessionExpires p = Some x \<longrightarrow> now env < x) \<longrightarrow>
      fst (setCredentials env a r c) = None
    \<and> accessToken (snd (setCredentials env a r c)) = Some t
    \<and> refreshToken (snd (setCredentials env a r c)) = r
    \<and> authorization (snd (setCredentials env a r c)) = Some (''Bearer '' @ t)
    \<and> userProfile (snd (setCredentials env a r c)) = Some p)
 \<and> (a = Some t \<and> t \<noteq> [] \<and> jwtDecode env t = Inr p
      \<and> sessionExpires p = Some x \<and> x \<le> now env \<longrightarrow>
      fst (setCredentials env a r c) = None
    \<and> accessToken (snd (setCredentials env a r c)) = None
    \<and> refreshToken (snd (setCredentials env a r c)) = None
    \<and> authorization (snd (setCredentials env a r c)) = None
    \<and> userProfile (snd (setCredentials env a r c)) = None)"
proof (intro conjI impI)
  assume "\<not> present a"
  from setCredentials_anonymous[OF this, of env r c]
  show "fst (setCredentials env a r c) = None"
    "accessToken (snd (setCredentials env a r c)) = a"
    "refreshToken (snd (setCredentials env a r c)) = r"
    "authorization (snd (setCredentials env a r c)) = None"
    "userProfile (snd (setCredentials env a r c)) = None" by simp_all
next
  let ?c0 = "(if storeCredentials c \<and> process_client env
           then c\<lparr>storage := Some (a, r)\<rparr> else c)\<lparr>accessToken := a, refreshToken := r\<rparr>"
  {
    assume h: "a = Some t \<and> t \<noteq> [] \<and> jwtDecode env t = Inr p
      \<and> (\<forall>x. sessionExpires p = Some x \<longrightarrow> now env < x)"
    then have at: "accessToken ?c0 = Some t" by simp
    from h refreshCredentials_valid[OF at, of env p]
    show "fst (setCredentials env a r c) = None"
      "accessToken (snd (setCredentials env a r c)) = Some t"
      "refreshToken (snd (setCredentials env a r c)) = r"
      "authorization (snd (setCredentials env a r c)) = Some (''Bearer '' @ t)"
      "userProfile (snd (setCredentials env a r c)) = Some p"
      unfolding setCredentials_refresh by simp_all
  }
  {
    assume h: "a = Some t \<and> t \<noteq> [] \<and> jwtDecode env t = Inr p
      \<and> sessionExpires p = Some x \<and> x \<le> now env"
    then have at: "accessToken ?c0 = Some t" by simp
    from h refreshCredentials_expired[OF at, of env p x]
    show "fst (setCredentials env a r c) = None"
      "accessToken (snd (setCredentials env a r c)) = None"
      "refreshToken (snd (setCredentials env a r c)) = None"
      "authorization (snd (setCredentials env a r c)) = None"
      "userProfile (snd (setCredentials env a r c)) = None"
      unfolding setCredentials_refresh by simp_all
  }
qed

theorem setCredentials_outcomes_witness:
  "(authorization (snd (setCredentials (sample_session 10) None None signed_in_client)) = None
    \<and> userProfile (snd (setCredentials (sample_session 10) None None signed_in_client)) = None
    \<and> refreshToken (snd (setCredentials (sample_session 10) None None signed_in_client)) = None)
 \<and> (authorization (snd (setCredentials (sample_session 10) (Some ''tok'') (Some ''ref'') fresh_client))
        = Some ''Bearer tok''
    \<and> userProfile (snd (setCredentials (sample_session 10) (Some ''tok'') (Some ''ref'') fresh_client))
        = Some sample_profile
    \<and> refreshToken (snd (setCredentials (sample_session 10) (Some ''tok'') (Some ''ref'') fresh_client))
        = Some ''ref'')
 \<and> (accessToken (snd (setCredentials (sample_session 200) (Some ''tok'') (Some ''ref'') fresh_client))
        = None
    \<and> authorization (snd (setCredentials (sample_session 200) (Some ''tok'') (Some ''ref'') fresh_client))
        = None)"
proof -
  have a: "\<not> present None" by (simp add: present_def)
  have b: "Some ''tok'' = Some ''tok'' \<and> ''tok'' \<noteq> []
             \<and> jwtDecode (sample_session 10) ''tok'' = Inr sample_profile
             \<and> (\<forall>x. sessionExpires sample_profile = Some x \<longrightarrow> now (sample_session 10) < x)"
    by (simp add: sample_session_def sample_jwtDecode_def sample_profile_def)
  have c: "Some ''tok'' = Some ''tok'' \<and> ''tok'' \<noteq> []
             \<and> jwtDecode (sample_session 200) ''tok'' = Inr sample_profile
             \<and> sessionExpires sample_profile = Some 100 \<and> 100 \<le> now (sample_session 200)"
    by (simp add: sample_session_def sample_jwtDecode_def sample_profile_def)
  from a setCredentials_outcomes
         [where a = None and env = "sample_session 10" and r = None and c = signed_in_client]
  have A: "authorization (snd (setCredentials (sample_session 10) None None signed_in_client)) = None
    \<and> userProfile (snd (setCredentials (sample_session 10) None None signed_in_client)) = None
    \<and> refreshToken (snd (setCredentials (sample_session 10) None None signed_in_client)) = None"
    by blast
  from b setCredentials_outcomes
         [where a = "Some ''tok''" and t = "''tok''" and env = "sample_session 10"
            and p = sample_profile and r = "Some ''ref''" and c = fresh_client]
  have B: "authorization (snd (setCredentials (sample_session 10) (Some ''tok'') (Some ''ref'') fresh_client))
        = Some (''Bearer '' @ ''tok'')
    \<and> userProfile (snd (setCredentials (sample_session 10) (Some ''tok'') (Some ''ref'') fresh_client))
        = Some sample_profile
    \<and> refreshToken (snd (setCredentials (sample_session 10) (Some ''tok'') (Some ''ref'') fresh_client))
        = Some ''ref''"
    by blast
  from c setCredentials_outcomes
         [where a = "Some ''tok''" and t = "''tok''" and env = "sample_session 200"
            and p = sample_profile and x = 100 and r = "Some ''ref''" and c = fresh_client]
  have C: "accessToken (snd (setCredentials (sample_session 200) (Some ''tok'') (Some ''ref'') fresh_client))
        = None
    \<and> authorization (snd (setCredentials (sample_session 200) (Some ''tok'') (Some ''ref'') fresh_client))
        = None"
    by blast
  from A B C show ?thesis by simp
qed

text \<open>
  The claim as it was stated fails for an access token that has expired: the token is
  not \<open>null\<close>, yet no header is set and no profile is kept.
\<close>

theorem setCredentials_expired_counterexample:
  "sample_jwtDecode ''tok'' = Inr sample_profile
 \<and> authorization (snd (setCredentials (sample_session 200) (Some ''tok'') (Some ''ref'') fresh_client))
     = None
 \<and> userProfile (snd (setCredentials (sample_session 200) (Some ''tok'') (Some ''ref'') fresh_client))
     = None"
  by code_simp

text \<open>
  Claim C2, as amended. \<open>logout\<close> awaits the revoke request. When it rejects, \<open>logout\<close>
  rejects with the same error and the client is left as it was. When it resolves, the
  local logout follows: a client that holds an access token ends with both tokens
  \<open>null\<close>, no Authorization header, no profile, and has emitted \<open>logout\<close> with the profile
  it had; a client that holds none is left as it was. \<open>me\<close> does what \<open>logout\<close> does when
  the client holds an access token, and nothing at all, not even the request, otherwise.
\<close>

theorem logout_after_revoke:
  "(driver' (revoke_request env) w = (Inl e, w') \<longrightarrow> logout env driver' c w = (Some e, c, w'))
 \<and> (driver' (revoke_request env) w = (Inr v, w') \<and> present (accessToken c) \<longrightarrow>
      fst (logout env driver' c w) = None
    \<and> accessToken (fst (snd (logout env driver' c w))) = None
    \<and> refreshToken (fst (snd (logout env driver' c w))) = None
    \<and> authorization (fst (snd (logout env driver' c w))) = None
    \<and> userProfile (fst (snd (logout env driver' c w))) = None
    \<and> emitted (fst (snd (logout env driver' c w))) = emitted c @ [Logout (userProfile c)])
 \<and> (driver' (revoke_request env) w = (Inr v, w') \<and> \<not> present (accessToken c) \<longrightarrow>
      logout env driver' c w = (None, c, w'))
 \<and> (present (accessToken c) \<longrightarrow> me env driver' c w = logout env driver' c w)
 \<and> (\<not> present (accessToken c) \<longrightarrow> me env driver' c w = (None, c, w))"
proof (intro conjI impI)
  assume "driver' (revoke_request env) w = (Inl e, w')"
  then show "logout env driver' c w = (Some e, c, w')" by (simp add: logout_def)
next
  assume "present (accessToken c)"
  then show "me env driver' c w = logout env driver' c w" by (simp add: me_def logout_def)
next
  assume "\<not> present (accessToken c)"
  then show "me env driver' c w = (None, c, w)" by (simp add: me_def)
next
  assume "driver' (revoke_request env) w = (Inr v, w') \<and> \<not> present (accessToken c)"
  then show "logout env driver' c w = (None, c, w')"
    by (simp add: logout_def localLogout_anonymous)
next
  assume h: "driver' (revoke_request env) w = (Inr v, w') \<and> present (accessToken c)"
  then have lo: "logout env driver' c w = (fst (localLogout env c), snd (localLogout env c), w')"
    by (simp add: logout_def split: prod.splits)
  from h localLogout_present[of c env]
  show "fst (logout env driver' c w) = None"
    "accessToken (fst (snd (logout env driver' c w))) = None"
    "refreshToken (fst (snd (logout env driver' c w))) = None"
    "authorization (fst (snd (logout env driver' c w))) = None"
    "userProfile (fst (snd (logout env driver' c w))) = None"
    "emitted (fst (snd (logout env driver' c w))) = emitted c @ [Logout (userProfile c)]"
    unfolding lo by simp_all
qed

theorem logout_after_revoke_witness:
  "logout (sample_session 10) rejecting_transport signed_in_client ()
     = (Some (Rejected (JStr ''timeout'')), signed_in_client, ())
 \<and> (accessToken (fst (snd (logout (sample_session 10) resolving_transport signed_in_client ()))) = None
    \<and> authorization (fst (snd (logout (sample_session 10) resolving_transport signed_in_client ()))) = None)
 \<and> logout (sample_session 10) resolving_transport fresh_client () = (None, fresh_client, ())
 \<and> me (sample_session 10) rejecting_transport signed_in_client ()
     = logout (sample_session 10) rejecting_transport signed_in_client ()
 \<and> me (sample_session 10) rejecting_transport fresh_client () = (None, fresh_client, ())"
proof -
  have a: "rejecting_transport (revoke_request (sample_session 10)) ()
             = (Inl (Rejected (JStr ''timeout'')), ())"
    by (simp add: rejecting_transport_def)
  have b: "resolving_transport (revoke_request (sample_session 10)) () = (Inr JNull, ())"
    by (simp add: resolving_transport_def)
  have p: "present (accessToken signed_in_client)"
    by (simp add: signed_in_client_def fresh_client_def present_def)
  have n: "\<not> present (accessToken fresh_client)"
    by (simp add: fresh_client_def present_def)
  note T1 = logout_after_revoke
         [where driver' = rejecting_transport and env = "sample_session 10" and w = "()"
            and e = "Rejected (JStr ''timeout'')" and w' = "()" and c = signed_in_client]
  note T2 = logout_after_revoke
         [where driver' = resolving_transport and env = "sample_session 10" and w = "()"
            and v = JNull and w' = "()" and c = signed_in_client]
  note T3 = logout_after_revoke
         [where driver' = resolving_transport and env = "sample_session 10" and w = "()"
            and v = JNull and w' = "()" and c = fresh_client]
  note T4 = logout_after_revoke
         [where driver' = rejecting_transport and env = "sample_session 10" and w = "()"
            and c = fresh_client]
  from a T1 have A: "logout (sample_session 10) rejecting_transport signed_in_client ()
     = (Some (Rejected (JStr ''timeout'')), signed_in_client, ())" by blast
  from b p T2 have B: "accessToken (fst (snd (logout (sample_session 10) resolving_transport signed_in_client ()))) = None
    \<and> authorization (fst (snd (logout (sample_session 10) resolving_transport signed_in_client ()))) = None"
    by blast
  from b n T3 have C: "logout (sample_session 10) resolving_transport fresh_client () = (None, fresh_client, ())"
    by blast
  from p T1 have D: "me (sample_session 10) rejecting_transport signed_in_client ()
     = logout (sample_session 10) rejecting_transport signed_in_client ()" by blast
  from n T4 have E: "me (sample_session 10) rejecting_transport fresh_client () = (None, fresh_client, ())"
    by blast
  from A B C D E show ?thesis by blast
qed

text \<open>
  The claim as it was stated fails where the revoke request rejects: \<open>logout\<close> rejects
  and the client still holds its token and its Authorization header.
\<close>

theorem logout_revoke_rejected_counterexample:
  "logout (sample_session 10) rejecting_transport signed_in_client ()
     = (Some (Rejected (JStr ''timeout'')), signed_in_client, ())
 \<and> accessToken signed_in_client = Some ''tok''
 \<and> authorization signed_in_client = Some ''Bearer tok''"
  by code_simp

section \<open>Realtime channel: properties\<close>

text \<open>
  Claim C9. When the client is connected or connecting and the token it connected with
  is the current token, \<open>connect\<close> changes nothing: no socket is unwired or disconnected,
  none is opened, and the connection flags stay as they are.
\<close>

theorem connect_noop:
  "connectedAuth c = token c \<Longrightarrow> isConnected c \<or> isConnecting c \<Longrightarrow>
   connect c = c \<and> io (connect c) = io c \<and> socket (connect c) = socket c
   \<and> isConnected (connect c) = isConnected c \<and> isConnecting (connect c) = isConnecting c"
  by (simp add: connect_def)

theorem connect_noop_witness:
  "connect (connect fresh_client) = connect fresh_client
 \<and> io (connect (connect fresh_client)) = [OpenSocket 0 None, WireSocket 0]"
proof -
  have a: "connectedAuth (connect fresh_client) = token (connect fresh_client)"
    by (simp add: connect_def fresh_client_def Let_def)
  have b: "isConnected (connect fresh_client) \<or> isConnecting (connect fresh_client)"
    by (simp add: connect_def fresh_client_def Let_def)
  have c: "io (connect fresh_client) = [OpenSocket 0 None, WireSocket 0]"
    by (simp add: connect_def fresh_client_def Let_def)
  from connect_noop[OF a b] c show ?thesis by simp
qed

lemma connect_twice: "connect (connect c) = connect c"
  by (simp add: connect_def Let_def split: option.splits)

end
